theory Spec2Isabelle
  imports Complex_Main "HOL-Library.Sublist" "HOL-Library.Multiset" "HOL-Library.Log_Nat"
begin

section \<open>Auto-seller for options: data model\<close>

text \<open>
  The development embeds \<^verbatim>\<open>src/library/good_option_hoping.py\<close>. A Python float is
  modelled by the rational number it denotes. The rounding of the target price to the
  tick is computed as the program computes it, every operation rounded to the nearest
  binary64 number (\<open>double\<close> below; overflow and subnormal numbers are left out). The
  bookkeeping of quantities and averages is carried out exactly: quantities are whole
  lot sizes, and the constants \<^verbatim>\<open>0.95\<close> and \<^verbatim>\<open>1e-6\<close> are read as the decimal
  fractions they denote. Points in time are seconds since the epoch.
  Dictionaries whose keys the code reads become records with one field per key read;
  symbols, exchanges and products are modelled as already upper-cased and stripped.
\<close>

type_synonym time = rat

datatype side = BUY | SELL

text \<open>
  Module configuration: the constants read from the environment at import time, and the
  capacity of the de-duplication cache.
\<close>

record config =
  OPTION_PRODUCTS :: "string list"
  TICK_SIZE_OPT :: rat
  AUTO_SELL_MARGIN_OPT :: rat
  USE_EXECUTIONS :: bool
  DEFER_ON_START_SEC :: rat
  LEDGER_LOOKBACK_DAYS :: int
  LEDGER_USE_SYNTHETIC_BOOTSTRAP :: bool
  MAX_EXEC_ID_CACHE :: nat

definition PLACE_PRODUCT :: "config \<Rightarrow> string" where
  "PLACE_PRODUCT cfg =
     (case OPTION_PRODUCTS cfg of [] \<Rightarrow> ''NRML'' | p # _ \<Rightarrow> p)"

definition EXCHANGES :: "string list" where
  "EXCHANGES = [''NFO'', ''BFO'']"

text \<open>
  A normalized execution row, as \<^verbatim>\<open>fetch_executions_lookback\<close> builds it. The
  normalizer keeps a row only when its side is \<^verbatim>\<open>"BUY"\<close> or \<^verbatim>\<open>"SELL"\<close>,
  so the side is a two-valued datatype.
\<close>

record execution =
  time :: time
  side :: side
  qty :: rat
  price :: rat
  symbol :: string
  exchange :: string
  product :: string
  exec_id :: "string option"

type_synonym lot = "rat \<times> rat"

section \<open>Helpers\<close>

text \<open>
  Python's \<^verbatim>\<open>round(x)\<close> on a float rounds its exact value to the nearest integer, a
  tie going to the even neighbour.
\<close>

definition py_round :: "rat \<Rightarrow> int" where
  "py_round x =
     (let f = \<lfloor>x\<rfloor>; d = x - of_int f
      in if d < 1 / 2 then f
         else if 1 / 2 < d then f + 1
         else if even f then f else f + 1)"

text \<open>
  Rounding to binary64: the exponent \<open>e\<close> of a number other than zero is the one with
  \<open>2 ^ e \<le> \<bar>x\<bar> < 2 ^ (e + 1)\<close>, the numbers representable around it are the multiples of
  \<open>2 ^ (e - 52)\<close>, and the nearest one is taken, a tie going to the even significand.
\<close>

definition pow2 :: "int \<Rightarrow> rat" where
  "pow2 e = (if 0 \<le> e then 2 ^ nat e else 1 / 2 ^ nat (- e))"

definition exponent_of :: "rat \<Rightarrow> int" where
  "exponent_of x =
     (let (n, d) = quotient_of \<bar>x\<bar>;
          e0 = bitlen n - bitlen d
      in if pow2 e0 \<le> \<bar>x\<bar> then e0 else e0 - 1)"

definition double :: "rat \<Rightarrow> rat" where
  "double x =
     (if x = 0 then 0
      else (let ulp = pow2 (exponent_of x - 52)
            in of_int (py_round (x / ulp)) * ulp))"

text \<open>The unit roundoff of binary64.\<close>

definition ueps :: rat where
  "ueps = 1 / 2 ^ 53"

text \<open>Float addition, multiplication and division: the exact result, rounded.\<close>

definition fl_add :: "rat \<Rightarrow> rat \<Rightarrow> rat" where
  "fl_add a b = double (a + b)"

definition fl_mul :: "rat \<Rightarrow> rat \<Rightarrow> rat" where
  "fl_mul a b = double (a * b)"

definition fl_div :: "rat \<Rightarrow> rat \<Rightarrow> rat" where
  "fl_div a b = double (a / b)"

text \<open>
  \<^verbatim>\<open>round(x, 2)\<close> on a float: the exact value of \<open>x\<close> rounded to two decimals, a tie
  going to the even hundredth, and the float nearest to that decimal.
\<close>

definition py_round2 :: "rat \<Rightarrow> rat" where
  "py_round2 x = double (of_int (py_round (x * 100)) / 100)"

text \<open>\<^verbatim>\<open>round(round(price / tick) * tick, 2)\<close>.\<close>

definition round_to_tick :: "rat \<Rightarrow> rat \<Rightarrow> rat" where
  "round_to_tick p tick = py_round2 (fl_mul (of_int (py_round (fl_div p tick))) tick)"

text \<open>
  The defaults of the environment variables; \<^verbatim>\<open>float("0.05")\<close> is the float nearest
  to one twentieth.
\<close>

definition default_config :: config where
  "default_config =
     \<lparr> OPTION_PRODUCTS = [''NRML'', ''MIS''],
       TICK_SIZE_OPT = double (5 / 100),
       AUTO_SELL_MARGIN_OPT = double (25 / 100),
       USE_EXECUTIONS = True,
       DEFER_ON_START_SEC = 2,
       LEDGER_LOOKBACK_DAYS = 45,
       LEDGER_USE_SYNTHETIC_BOOTSTRAP = True,
       MAX_EXEC_ID_CACHE = 10000 \<rparr>"

definition weighted_avg :: "lot list \<Rightarrow> rat" where
  "weighted_avg pairs =
     (let num = sum_list (map (\<lambda>(q, a). q * a) pairs);
          den = sum_list (map fst pairs)
      in if 0 < den then num / den else 0)"

definition is_option_symbol :: "string \<Rightarrow> bool" where
  "is_option_symbol s = (suffix ''CE'' s \<or> suffix ''PE'' s)"

section \<open>Ledger engine (FIFO pairing)\<close>

text \<open>
  The inner \<^verbatim>\<open>while sell_qty > 0 and queue\<close> loop of the SELL branch: it takes
  from the front lot, drops the lot when nothing is left of it, and otherwise writes the
  reduced lot back.
\<close>

function consume :: "rat \<Rightarrow> lot list \<Rightarrow> lot list" where
  "consume sell_qty [] = []"
| "consume sell_qty ((lot_qty, lot_price) # rest) =
     (if 0 < sell_qty then
        (let take = min sell_qty lot_qty;
             lot_qty' = lot_qty - take;
             sell_qty' = sell_qty - take
         in if lot_qty' \<le> 0 then consume sell_qty' rest
            else consume sell_qty' ((lot_qty', lot_price) # rest))
      else (lot_qty, lot_price) # rest)"
  by pat_completeness auto
termination
  by (relation "measure (\<lambda>(s, q). 2 * length q + (if 0 < s then 1 else 0))")
     (auto simp: min_def split: if_splits)

text \<open>One pass of the \<^verbatim>\<open>for r in execs\<close> loop of \<^verbatim>\<open>fifo_ledger_avg\<close>.\<close>

definition ledger_step :: "config \<Rightarrow> string \<Rightarrow> string \<Rightarrow> lot list \<Rightarrow> execution \<Rightarrow> lot list" where
  "ledger_step cfg exch symb queue r =
     (if exchange r \<noteq> exch \<or> symbol r \<noteq> symb \<or> product r \<notin> set (OPTION_PRODUCTS cfg)
      then queue
      else (case side r of
              BUY \<Rightarrow> queue @ [(qty r, price r)]
            | SELL \<Rightarrow> consume (qty r) queue))"

definition seed_queue :: "config \<Rightarrow> rat \<Rightarrow> rat \<Rightarrow> lot list" where
  "seed_queue cfg opening_qty opening_avg =
     (if LEDGER_USE_SYNTHETIC_BOOTSTRAP cfg \<and> 0 < opening_qty \<and> 0 < opening_avg
      then [(opening_qty, opening_avg)] else [])"

definition open_result :: "lot list \<Rightarrow> rat \<times> rat option" where
  "open_result queue =
     (let open_qty = sum_list (map fst queue);
          open_avg = (if 0 < open_qty then Some (weighted_avg queue) else None)
      in (open_qty, open_avg))"

definition fifo_ledger_avg ::
  "config \<Rightarrow> execution list \<Rightarrow> string \<Rightarrow> string \<Rightarrow> rat \<Rightarrow> rat \<Rightarrow> rat \<times> rat option" where
  "fifo_ledger_avg cfg execs exch symb opening_qty opening_avg =
     open_result (foldl (ledger_step cfg exch symb) (seed_queue cfg opening_qty opening_avg) execs)"

text \<open>
  Engine A: the mini-ledger the supervisor builds inline from the executions since the
  session start. The list comprehension keeps the instrument's rows with an in-scope
  product and \<^verbatim>\<open>r["time"] >= st.session_start\<close>; the loop body treats every row
  that is not a BUY as a SELL.
\<close>

definition in_scope :: "config \<Rightarrow> string \<Rightarrow> string \<Rightarrow> execution \<Rightarrow> bool" where
  "in_scope cfg exch symb r =
     (exchange r = exch \<and> symbol r = symb \<and> product r \<in> set (OPTION_PRODUCTS cfg))"

definition sess_execs :: "config \<Rightarrow> execution list \<Rightarrow> string \<Rightarrow> string \<Rightarrow> time \<Rightarrow> execution list" where
  "sess_execs cfg execs exch symb session_start =
     filter (\<lambda>r. in_scope cfg exch symb r \<and> session_start \<le> time r) execs"

definition session_step :: "lot list \<Rightarrow> execution \<Rightarrow> lot list" where
  "session_step queue r =
     (if side r = BUY then queue @ [(qty r, price r)] else consume (qty r) queue)"

definition session_engine ::
  "config \<Rightarrow> execution list \<Rightarrow> string \<Rightarrow> string \<Rightarrow> time \<Rightarrow> rat \<times> rat option" where
  "session_engine cfg execs exch symb session_start =
     (let queue = foldl session_step [] (sess_execs cfg execs exch symb session_start);
          sess_open_qty = sum_list (map fst queue)
      in (sess_open_qty, if 0 < sess_open_qty then Some (weighted_avg queue) else None))"

subsection \<open>Reference quantities for the ledger\<close>

text \<open>Total quantity of one side among the instrument's in-scope executions.\<close>

definition total_side :: "config \<Rightarrow> string \<Rightarrow> string \<Rightarrow> side \<Rightarrow> execution list \<Rightarrow> rat" where
  "total_side cfg exch symb s execs =
     sum_list (map qty (filter (\<lambda>r. in_scope cfg exch symb r \<and> side r = s) execs))"

definition seed_qty :: "config \<Rightarrow> rat \<Rightarrow> rat \<Rightarrow> rat" where
  "seed_qty cfg opening_qty opening_avg = sum_list (map fst (seed_queue cfg opening_qty opening_avg))"

text \<open>The running balance: a BUY adds, a SELL subtracts but stops at zero.\<close>

fun running_balance :: "config \<Rightarrow> string \<Rightarrow> string \<Rightarrow> rat \<Rightarrow> execution list \<Rightarrow> rat" where
  "running_balance cfg exch symb q [] = q"
| "running_balance cfg exch symb q (r # rs) =
     (if \<not> in_scope cfg exch symb r then running_balance cfg exch symb q rs
      else if side r = BUY then running_balance cfg exch symb (q + qty r) rs
      else running_balance cfg exch symb (max 0 (q - qty r)) rs)"

text \<open>No SELL asks for more than is open when it is applied.\<close>

fun covered :: "config \<Rightarrow> string \<Rightarrow> string \<Rightarrow> rat \<Rightarrow> execution list \<Rightarrow> bool" where
  "covered cfg exch symb q [] = True"
| "covered cfg exch symb q (r # rs) =
     (if \<not> in_scope cfg exch symb r then covered cfg exch symb q rs
      else if side r = BUY then covered cfg exch symb (q + qty r) rs
      else qty r \<le> q \<and> covered cfg exch symb (q - qty r) rs)"

definition mk_exec :: "time \<Rightarrow> side \<Rightarrow> rat \<Rightarrow> rat \<Rightarrow> execution" where
  "mk_exec t s q p =
     \<lparr> time = t, side = s, qty = q, price = p, symbol = ''NIFTY24500CE'',
       exchange = ''NFO'', product = ''NRML'', exec_id = None \<rparr>"

subsection \<open>Target price\<close>

text \<open>\<^verbatim>\<open>round_to_tick(chosen_avg + AUTO_SELL_MARGIN_OPT, TICK_SIZE_OPT)\<close>, as the supervisor
  and \<^verbatim>\<open>ensure_one_sell\<close> both compute it.\<close>

definition target_px :: "config \<Rightarrow> rat \<Rightarrow> rat" where
  "target_px cfg chosen_avg =
     round_to_tick (fl_add chosen_avg (AUTO_SELL_MARGIN_OPT cfg)) (TICK_SIZE_OPT cfg)"

text \<open>
  The rounding as the specification words it, for comparison: the same float operations,
  with a tie going up both in the tick count and at the second decimal.
\<close>

definition spec_half_up :: "rat \<Rightarrow> int" where
  "spec_half_up x = \<lfloor>x + 1 / 2\<rfloor>"

definition spec_round_to_tick :: "rat \<Rightarrow> rat \<Rightarrow> rat" where
  "spec_round_to_tick p tick =
     double (of_int (spec_half_up (fl_mul (of_int (spec_half_up (fl_div p tick))) tick * 100)) / 100)"

definition spec_target_px :: "config \<Rightarrow> rat \<Rightarrow> rat" where
  "spec_target_px cfg chosen_avg =
     spec_round_to_tick (fl_add chosen_avg (AUTO_SELL_MARGIN_OPT cfg)) (TICK_SIZE_OPT cfg)"

section \<open>Execution fetcher: normalization and de-duplication\<close>

text \<open>
  A raw row after the key look-ups of the normalizing loop: \<^verbatim>\<open>r_time\<close> is the parsed
  timestamp (\<open>None\<close> when no format applies), \<^verbatim>\<open>r_qty\<close> and \<^verbatim>\<open>r_price\<close> are
  \<open>None\<close> when \<^verbatim>\<open>float()\<close> raises (the row is then skipped by the
  \<^verbatim>\<open>except\<close> clause), and \<^verbatim>\<open>r_exec_id\<close> is the first truthy id found.
\<close>

record raw_row =
  r_exchange :: string
  r_symbol :: string
  r_time :: "time option"
  r_side :: string
  r_qty :: "rat option"
  r_price :: "rat option"
  r_product :: string
  r_exec_id :: "string option"

text \<open>
  \<^verbatim>\<open>PROCESSED_EXEC_IDS\<close>, with a counter of the \<^verbatim>\<open>clear()\<close> calls executed so
  far (the counter is not in the program; it records when the cache was emptied).
\<close>

record dedup_cache =
  ids :: "string set"
  clears :: nat

definition truthy :: "string option \<Rightarrow> bool" where
  "truthy v = (case v of None \<Rightarrow> False | Some s \<Rightarrow> s \<noteq> [])"

definition side_of :: "string \<Rightarrow> side option" where
  "side_of s = (if s = ''BUY'' then Some BUY else if s = ''SELL'' then Some SELL else None)"

text \<open>One pass of the \<^verbatim>\<open>for r in rows\<close> loop, lines 271 to 325.\<close>

definition fetch_step ::
  "config \<Rightarrow> time \<Rightarrow> execution list \<times> dedup_cache \<Rightarrow> raw_row \<Rightarrow> execution list \<times> dedup_cache" where
  "fetch_step cfg cutoff acc r =
     (let (normed, cache) = acc in
      if r_exchange r = [] \<or> r_symbol r = [] then acc
      else case r_time r of
        None \<Rightarrow> acc
      | Some dt \<Rightarrow>
          if dt < cutoff then acc
          else case side_of (r_side r) of
            None \<Rightarrow> acc
          | Some sd \<Rightarrow>
              (case r_qty r of
                 None \<Rightarrow> acc
               | Some q \<Rightarrow>
                   if q \<le> 0 then acc
                   else case r_price r of
                     None \<Rightarrow> acc
                   | Some p \<Rightarrow>
                       (let eid = (if truthy (r_exec_id r) then r_exec_id r else None);
                            row = \<lparr> time = dt, side = sd, qty = q, price = p,
                                    symbol = r_symbol r, exchange = r_exchange r,
                                    product = r_product r, exec_id = eid \<rparr>
                        in case eid of
                             None \<Rightarrow> (normed @ [row], cache)
                           | Some i \<Rightarrow>
                               if i \<in> ids cache then acc
                               else (let added = insert i (ids cache)
                                     in if MAX_EXEC_ID_CACHE cfg < card added
                                        then (normed @ [row], \<lparr> ids = {}, clears = Suc (clears cache) \<rparr>)
                                        else (normed @ [row], cache\<lparr> ids := added \<rparr>)))))"

text \<open>
  \<^verbatim>\<open>fetch_executions_lookback(days)\<close> on the rows gathered from the four sources at
  clock reading \<open>now\<close>: normalize, de-duplicate, sort by time (Python's sort is stable,
  as \<open>sort_key\<close> is).
\<close>

definition fetch_executions_lookback ::
  "config \<Rightarrow> time \<Rightarrow> raw_row list \<Rightarrow> dedup_cache \<Rightarrow> execution list \<times> dedup_cache" where
  "fetch_executions_lookback cfg now rows cache =
     (let cutoff = now - of_int (LEDGER_LOOKBACK_DAYS cfg) * 86400;
          (normed, cache') = foldl (fetch_step cfg cutoff) ([], cache) rows
      in (sort_key time normed, cache'))"

text \<open>Successive calls of the fetcher, one per supervisor cycle, sharing the cache.\<close>

fun fetch_calls ::
  "config \<Rightarrow> (time \<times> raw_row list) list \<Rightarrow> dedup_cache \<Rightarrow> execution list list \<times> dedup_cache" where
  "fetch_calls cfg [] cache = ([], cache)"
| "fetch_calls cfg ((now, rows) # rest) cache =
     (let (out, cache') = fetch_executions_lookback cfg now rows cache;
          (outs, cache'') = fetch_calls cfg rest cache'
      in (out # outs, cache''))"

definition mk_row :: "time \<Rightarrow> string \<Rightarrow> string \<Rightarrow> raw_row" where
  "mk_row t sd i =
     \<lparr> r_exchange = ''NFO'', r_symbol = ''NIFTY24500CE'', r_time = Some t, r_side = sd,
       r_qty = Some 10, r_price = Some 100, r_product = ''NRML'', r_exec_id = Some i \<rparr>"

section \<open>Per-instrument state\<close>

record symbol_state =
  st_symbol :: string
  st_exchange :: string
  total_qty :: rat
  avg_price :: rat
  open_sell_id :: "string option"
  open_sell_px :: "rat option"
  open_sell_qty :: "rat option"
  tracking :: bool
  manual_override :: bool
  armed :: bool
  session_id :: nat
  session_start :: "time option"
  session_buy_qty :: rat
  session_buy_value :: rat
  last_exec_id :: "string option"
  session_populated :: bool

definition SymbolState :: "string \<Rightarrow> string \<Rightarrow> symbol_state" where
  "SymbolState symb exch =
     \<lparr> st_symbol = symb, st_exchange = exch, total_qty = 0, avg_price = 0,
       open_sell_id = None, open_sell_px = None, open_sell_qty = None,
       tracking = False, manual_override = False, armed = False,
       session_id = 0, session_start = None, session_buy_qty = 0, session_buy_value = 0,
       last_exec_id = None, session_populated = False \<rparr>"

definition reset_session :: "time \<Rightarrow> symbol_state \<Rightarrow> symbol_state" where
  "reset_session now st =
     st\<lparr> session_id := session_id st + 1, session_start := Some now,
         session_buy_qty := 0, session_buy_value := 0, last_exec_id := None,
         armed := True, session_populated := False \<rparr>"

definition clear_session :: "symbol_state \<Rightarrow> symbol_state" where
  "clear_session st =
     st\<lparr> session_start := None, session_buy_qty := 0, session_buy_value := 0,
         last_exec_id := None, armed := False \<rparr>"

section \<open>Broker client and order actions\<close>

text \<open>
  An entry of the order book, with the fields the code reads; \<^verbatim>\<open>o_orderid\<close> is
  \<^verbatim>\<open>o.get("orderid") or o.get("order_id")\<close>, the status is lower-cased and the action
  upper-cased, as the code compares them.
\<close>

record order =
  o_orderid :: "string option"
  o_exchange :: string
  o_symbol :: string
  o_product :: string
  o_action :: string
  o_quantity :: rat
  o_price :: rat
  o_status :: string

record place_req =
  p_symbol :: string
  p_exchange :: string
  p_action :: string
  p_quantity :: rat
  p_price :: rat
  p_product :: string
  p_price_type :: string

text \<open>
  The answer of \<^verbatim>\<open>placeorder\<close>: the two top-level id keys and what is under
  \<^verbatim>\<open>"data"\<close>, which is absent, a dictionary with the two id keys, or something that
  has no \<^verbatim>\<open>get\<close>.
\<close>

datatype resp_data = NoData | DataDict "string option" "string option" | DataOther

record resp =
  orderid :: "string option"
  order_id :: "string option"
  resp_data :: resp_data

datatype error = ClientError | AttributeError

datatype call = CancelOrder string | PlaceOrder place_req

text \<open>
  The client is external: its two order actions are parameters, acting on a broker state
  of any type and either raising or answering. The world pairs the broker state with the
  log of the client calls the engine has issued.
\<close>

record 'b client =
  placeorder :: "place_req \<Rightarrow> 'b \<Rightarrow> (error + resp) \<times> 'b"
  cancelorder :: "string \<Rightarrow> 'b \<Rightarrow> (error + unit) \<times> 'b"

record 'b world =
  store :: 'b
  calls :: "call list"

definition str_oid :: "string option \<Rightarrow> string" where
  "str_oid oid = (case oid of None \<Rightarrow> ''None'' | Some s \<Rightarrow> s)"

definition cancel_one :: "'b client \<Rightarrow> 'b world \<Rightarrow> order \<Rightarrow> 'b world" where
  "cancel_one cl w ord =
     (if o_action ord = ''SELL'' then
        (if o_status ord \<notin> set [''open'', ''pending'', ''trigger_pending''] then w
         else (let oid = str_oid (o_orderid ord);
                   (res, b) = cancelorder cl oid (store w)
               in \<lparr> store = b, calls = calls w @ [CancelOrder oid] \<rparr>))
      else w)"

text \<open>\<^verbatim>\<open>cancel_existing_sells\<close> on \<^verbatim>\<open>open_orders.get((exchange, symbol), [])\<close>.\<close>

definition cancel_existing_sells :: "'b client \<Rightarrow> order list \<Rightarrow> 'b world \<Rightarrow> 'b world" where
  "cancel_existing_sells cl orders w = foldl (cancel_one cl) w orders"

definition extract_oid :: "resp \<Rightarrow> error + string option" where
  "extract_oid rsp =
     (if truthy (orderid rsp) then Inr (orderid rsp)
      else if truthy (order_id rsp) then Inr (order_id rsp)
      else case resp_data rsp of
             DataOther \<Rightarrow> Inl AttributeError
           | NoData \<Rightarrow> Inr None
           | DataDict a b \<Rightarrow> Inr (if truthy a then a else b))"

text \<open>
  The keyword arguments of \<^verbatim>\<open>client.placeorder\<close>. The quantity is passed as an
  \<^verbatim>\<open>int\<close> when it has no fractional part and the price as the string of the rounded
  target; both denote the numbers recorded here.
\<close>

definition place_request :: "config \<Rightarrow> string \<Rightarrow> string \<Rightarrow> rat \<Rightarrow> rat \<Rightarrow> place_req" where
  "place_request cfg exch symb q avg =
     \<lparr> p_symbol = symb, p_exchange = exch, p_action = ''SELL'', p_quantity = q,
       p_price = target_px cfg avg, p_product = PLACE_PRODUCT cfg, p_price_type = ''LIMIT'' \<rparr>"

definition ensure_one_sell ::
  "'b client \<Rightarrow> config \<Rightarrow> string \<Rightarrow> string \<Rightarrow> rat \<Rightarrow> rat \<Rightarrow> 'b world
     \<Rightarrow> (string option \<times> rat option \<times> rat option) \<times> 'b world" where
  "ensure_one_sell cl cfg exch symb q avg w =
     (if q \<le> 0 then ((None, None, None), w)
      else (let px = target_px cfg avg;
                req = place_request cfg exch symb q avg;
                (res, b) = placeorder cl req (store w);
                w' = \<lparr> store = b, calls = calls w @ [PlaceOrder req] \<rparr>
            in case res of
                 Inl e \<Rightarrow> ((None, None, None), w')
               | Inr rsp \<Rightarrow>
                   (case extract_oid rsp of
                      Inl e \<Rightarrow> ((None, None, None), w')
                    | Inr oid \<Rightarrow> ((if truthy oid then oid else None, Some px, Some q), w'))))"

text \<open>\<^verbatim>\<open>snapshot_open_orders_options().get(key, [])\<close> on the raw order book.\<close>

definition open_orders_for :: "config \<Rightarrow> order list \<Rightarrow> string \<Rightarrow> string \<Rightarrow> order list" where
  "open_orders_for cfg book exch symb =
     filter (\<lambda>ord. o_exchange ord \<in> set EXCHANGES \<and> o_product ord \<in> set (OPTION_PRODUCTS cfg)
                  \<and> o_status ord = ''open'' \<and> is_option_symbol (o_symbol ord)
                  \<and> o_exchange ord = exch \<and> o_symbol ord = symb) book"

section \<open>Supervisor: one decision cycle for one instrument\<close>

text \<open>
  What one pass of the \<^verbatim>\<open>while\<close> loop hands to the body of
  \<^verbatim>\<open>for key in list(SYMBOLS.keys())\<close> for one key: \<^verbatim>\<open>totals.get(key, (0.0, 0.0))\<close>,
  \<^verbatim>\<open>open_orders.get(key, [])\<close>, the fetched executions, and the two clock readings
  (in \<^verbatim>\<open>reset_session\<close> and in the defer test).
\<close>

record cycle_in =
  totals :: "rat \<times> rat"
  open_orders :: "order list"
  execs :: "execution list"
  now_reset :: time
  now_defer :: time

datatype source = Session | Ledger | Session_Partial | Position_UNSAFE

datatype choice = Chosen rat source | Defer

text \<open>Lines 531 to 541: start tracking, re-arm on a quantity increase.\<close>

definition start_tracking :: "time \<Rightarrow> rat \<Rightarrow> rat \<Rightarrow> symbol_state \<Rightarrow> symbol_state" where
  "start_tracking now prev_qty q st =
     (let st1 = (if \<not> tracking st then reset_session now (st\<lparr> tracking := True \<rparr>) else st)
      in if prev_qty < q then st1\<lparr> armed := True \<rparr> else st1)"

text \<open>Lines 543 to 550: engine B.\<close>

definition ledger_phase ::
  "config \<Rightarrow> execution list \<Rightarrow> string \<Rightarrow> string \<Rightarrow> rat \<Rightarrow> rat \<Rightarrow> symbol_state \<Rightarrow> rat \<times> rat option" where
  "ledger_phase cfg xs exch symb q pos_avg st =
     (if USE_EXECUTIONS cfg then
        fifo_ledger_avg cfg xs exch symb
          (if session_start st = None then q else 0)
          (if session_start st = None then pos_avg else 0)
      else (0, None))"

text \<open>Lines 552 to 580: engine A, which also records the session's open quantity.\<close>

definition session_phase ::
  "config \<Rightarrow> execution list \<Rightarrow> string \<Rightarrow> string \<Rightarrow> symbol_state \<Rightarrow> rat option \<times> symbol_state" where
  "session_phase cfg xs exch symb st =
     (if USE_EXECUTIONS cfg then
        (case session_start st of
           None \<Rightarrow> (None, st)
         | Some start \<Rightarrow>
             (let (sess_open_qty, avg) = session_engine cfg xs exch symb start
              in if 0 < sess_open_qty
                 then (avg, st\<lparr> session_buy_qty := sess_open_qty, session_populated := True \<rparr>)
                 else (None, st)))
      else (None, st))"

text \<open>Lines 583 to 610: choose the average.\<close>

definition ledger_covers :: "rat option \<Rightarrow> rat \<Rightarrow> rat \<Rightarrow> bool" where
  "ledger_covers ledger_open_avg ledger_open_qty q =
     (ledger_open_avg \<noteq> None \<and> q * (95 / 100) \<le> ledger_open_qty)"

definition choose_avg ::
  "config \<Rightarrow> rat option \<Rightarrow> rat \<Rightarrow> rat \<Rightarrow> rat \<Rightarrow> rat option \<Rightarrow> rat \<Rightarrow> time option \<Rightarrow> time \<Rightarrow> choice" where
  "choose_avg cfg session_avg sbq q ledger_open_qty ledger_open_avg pos_avg sstart now =
     (if session_avg \<noteq> None \<and> 0 < sbq then
        (let coverage_ratio = (if 0 < q then sbq / q else 0)
         in if 95 / 100 \<le> coverage_ratio then Chosen (the session_avg) Session
            else if ledger_covers ledger_open_avg ledger_open_qty q
                 then Chosen (the ledger_open_avg) Ledger
            else Chosen (the session_avg) Session_Partial)
      else if ledger_covers ledger_open_avg ledger_open_qty q
           then Chosen (the ledger_open_avg) Ledger
      else if USE_EXECUTIONS cfg \<and> sstart \<noteq> None \<and> now - the sstart < DEFER_ON_START_SEC cfg
           then Defer
      else Chosen pos_avg Position_UNSAFE)"

text \<open>Lines 618 to 633: look for a live SELL at exactly the current quantity.\<close>

definition sell_at :: "rat \<Rightarrow> order \<Rightarrow> bool" where
  "sell_at q ord = (o_action ord = ''SELL'' \<and> o_quantity ord = q)"

definition inspect_orders ::
  "rat \<Rightarrow> rat \<Rightarrow> order list \<Rightarrow> symbol_state \<Rightarrow> bool \<times> bool \<times> symbol_state" where
  "inspect_orders q target orders st =
     (case find (sell_at q) orders of
        None \<Rightarrow> (False, False, st)
      | Some ord \<Rightarrow>
          (let actual_px = o_price ord;
               st' = st\<lparr> open_sell_id := o_orderid ord, open_sell_px := Some actual_px,
                         open_sell_qty := Some q \<rparr>
           in if \<bar>actual_px - target\<bar> < 1 / 1000000
              then (True, True, st'\<lparr> manual_override := False \<rparr>)
              else (True, False, st'\<lparr> manual_override := True \<rparr>)))"

text \<open>Lines 612 to 652: decide and maintain the order.\<close>

definition maintain_order ::
  "'b client \<Rightarrow> config \<Rightarrow> string \<Rightarrow> string \<Rightarrow> rat \<Rightarrow> rat \<Rightarrow> order list \<Rightarrow> symbol_state
     \<Rightarrow> 'b world \<Rightarrow> symbol_state \<times> 'b world" where
  "maintain_order cl cfg exch symb q chosen_avg orders st w =
     (let st4 = st\<lparr> total_qty := q, avg_price := chosen_avg \<rparr>;
          (found_open, matched_target, st5) = inspect_orders q (target_px cfg chosen_avg) orders st4
      in if matched_target then (st5\<lparr> armed := False \<rparr>, w)
         else if found_open \<and> manual_override st5 then (st5\<lparr> armed := False \<rparr>, w)
         else if armed st5 then
           (let ((oid, px, oq), w') = ensure_one_sell cl cfg exch symb q chosen_avg w
            in (st5\<lparr> open_sell_id := oid, open_sell_px := px, open_sell_qty := oq,
                     armed := False \<rparr>, w'))
         else
           (let w1 = cancel_existing_sells cl orders w;
                st6 = st5\<lparr> open_sell_id := None, open_sell_px := None, open_sell_qty := None \<rparr>;
                ((oid, px, oq), w2) = ensure_one_sell cl cfg exch symb q chosen_avg w1
            in (st6\<lparr> open_sell_id := oid, open_sell_px := px, open_sell_qty := oq \<rparr>, w2)))"

text \<open>Lines 516 to 529: the instrument is flat.\<close>

definition go_flat :: "'b client \<Rightarrow> order list \<Rightarrow> symbol_state \<Rightarrow> 'b world \<Rightarrow> symbol_state \<times> 'b world" where
  "go_flat cl orders st w =
     (let st1 = st\<lparr> total_qty := 0, avg_price := 0 \<rparr>
      in if tracking st1 then
           (let w1 = cancel_existing_sells cl orders w;
                st2 = st1\<lparr> open_sell_id := None, open_sell_px := None, open_sell_qty := None,
                          manual_override := False, tracking := False \<rparr>
            in (clear_session st2, w1))
         else (st1, w))"

text \<open>Lines 531 to 610: the costing decision, with the state it leaves.\<close>

definition costing ::
  "config \<Rightarrow> string \<Rightarrow> string \<Rightarrow> cycle_in \<Rightarrow> symbol_state \<times> rat \<Rightarrow> choice \<times> symbol_state" where
  "costing cfg exch symb inp sl =
     (let (st, prev_qty) = sl;
          (q, pos_avg_pos_legs) = totals inp;
          st2 = start_tracking (now_reset inp) prev_qty q st;
          (ledger_open_qty, ledger_open_avg) = ledger_phase cfg (execs inp) exch symb q pos_avg_pos_legs st2;
          (session_avg, st3) = session_phase cfg (execs inp) exch symb st2
      in (choose_avg cfg session_avg (session_buy_qty st3) q ledger_open_qty ledger_open_avg
            pos_avg_pos_legs (session_start st3) (now_defer inp), st3))"

text \<open>
  The body of the per-symbol loop. The state of an instrument is its
  \<^verbatim>\<open>SymbolState\<close> with its entry of \<^verbatim>\<open>last_qty\<close>.
\<close>

definition process_symbol ::
  "'b client \<Rightarrow> config \<Rightarrow> string \<Rightarrow> string \<Rightarrow> cycle_in \<Rightarrow> symbol_state \<times> rat \<Rightarrow> 'b world
     \<Rightarrow> (symbol_state \<times> rat) \<times> 'b world" where
  "process_symbol cl cfg exch symb inp sl w =
     (let q = fst (totals inp) in
      if q \<le> 0 then
        (let (st', w') = go_flat cl (open_orders inp) (fst sl) w in ((st', 0), w'))
      else
        (case costing cfg exch symb inp sl of
           (Defer, st3) \<Rightarrow> ((st3, q), w)
         | (Chosen chosen_avg src, st3) \<Rightarrow>
             (let (st', w') = maintain_order cl cfg exch symb q chosen_avg (open_orders inp) st3 w
              in ((st', q), w'))))"


subsection \<open>The selection policy as the specification words it\<close>

text \<open>
  The six branches in priority order, for comparison with \<open>choose_avg\<close>: the result is
  the source with the average it stands for, or nothing when the cycle is deferred.
\<close>

definition choice_parts :: "choice \<Rightarrow> source option \<times> rat option" where
  "choice_parts c = (case c of Chosen a src \<Rightarrow> (Some src, Some a) | Defer \<Rightarrow> (None, None))"

definition spec_policy ::
  "config \<Rightarrow> rat option \<Rightarrow> rat \<Rightarrow> rat \<Rightarrow> rat \<Rightarrow> rat option \<Rightarrow> rat \<Rightarrow> time option \<Rightarrow> time
     \<Rightarrow> source option \<times> rat option" where
  "spec_policy cfg session_avg sbq q ledger_open_qty ledger_open_avg pos_avg sstart now =
     (if session_avg \<noteq> None \<and> 95 / 100 \<le> sbq / q then (Some Session, session_avg)
      else if 95 / 100 * q \<le> ledger_open_qty then (Some Ledger, ledger_open_avg)
      else if session_avg \<noteq> None then (Some Session_Partial, session_avg)
      else if 95 / 100 * q \<le> ledger_open_qty then (Some Ledger, ledger_open_avg)
      else if sstart \<noteq> None \<and> now - the sstart < DEFER_ON_START_SEC cfg then (None, None)
      else (Some Position_UNSAFE, Some pos_avg))"

text \<open>The policy applied to the values one cycle computes for an instrument.\<close>

definition spec_costing ::
  "config \<Rightarrow> string \<Rightarrow> string \<Rightarrow> cycle_in \<Rightarrow> symbol_state \<times> rat \<Rightarrow> source option \<times> rat option" where
  "spec_costing cfg exch symb inp sl =
     (let (st, prev_qty) = sl;
          (q, pos_avg_pos_legs) = totals inp;
          st2 = start_tracking (now_reset inp) prev_qty q st;
          (ledger_open_qty, ledger_open_avg) = ledger_phase cfg (execs inp) exch symb q pos_avg_pos_legs st2;
          (session_avg, st3) = session_phase cfg (execs inp) exch symb st2
      in spec_policy cfg session_avg (session_buy_qty st3) q ledger_open_qty ledger_open_avg
           pos_avg_pos_legs (session_start st3) (now_defer inp))"

section \<open>An order store that reflects the engine's actions\<close>

text \<open>
  The environment of the one-order invariant: an order book that records every placement
  as an open order under a fresh id and marks a cancelled order as such. It stands for
  the broker; the engine reaches it only through the client.
\<close>

definition fresh_oid :: "order list \<Rightarrow> string" where
  "fresh_oid book = ''ORD'' @ replicate (length book) (CHR ''I'')"

definition book_placeorder :: "place_req \<Rightarrow> order list \<Rightarrow> (error + resp) \<times> order list" where
  "book_placeorder req book =
     (Inr \<lparr> orderid = Some (fresh_oid book), order_id = None, resp_data = NoData \<rparr>,
      book @ [\<lparr> o_orderid = Some (fresh_oid book), o_exchange = p_exchange req,
                o_symbol = p_symbol req, o_product = p_product req, o_action = p_action req,
                o_quantity = p_quantity req, o_price = p_price req, o_status = ''open'' \<rparr>])"

definition book_cancelorder :: "string \<Rightarrow> order list \<Rightarrow> (error + unit) \<times> order list" where
  "book_cancelorder oid book =
     (Inr (), map (\<lambda>ord. if o_orderid ord = Some oid then ord\<lparr> o_status := ''cancelled'' \<rparr> else ord) book)"

definition book_client :: "order list client" where
  "book_client = \<lparr> placeorder = book_placeorder, cancelorder = book_cancelorder \<rparr>"

text \<open>A cycle against the order book: the snapshot is read from the book itself.\<close>

definition book_cycle ::
  "config \<Rightarrow> string \<Rightarrow> string \<Rightarrow> (rat \<times> rat) \<Rightarrow> execution list \<Rightarrow> time
     \<Rightarrow> (symbol_state \<times> rat) \<times> order list world \<Rightarrow> (symbol_state \<times> rat) \<times> order list world" where
  "book_cycle cfg exch symb tot xs now slw =
     process_symbol book_client cfg exch symb
       \<lparr> totals = tot, open_orders = open_orders_for cfg (store (snd slw)) exch symb,
         execs = xs, now_reset = now, now_defer = now \<rparr>
       (fst slw) (snd slw)"

definition live_sells :: "order list \<Rightarrow> string \<Rightarrow> string \<Rightarrow> order list" where
  "live_sells book exch symb =
     filter (\<lambda>ord. o_exchange ord = exch \<and> o_symbol ord = symb \<and> o_action ord = ''SELL''
                  \<and> o_status ord = ''open'') book"

text \<open>A client whose every call raises, and one that accepts every call.\<close>

definition failing_client :: "unit client" where
  "failing_client =
     \<lparr> placeorder = (\<lambda>req b. (Inl ClientError, b)),
       cancelorder = (\<lambda>oid b. (Inl ClientError, b)) \<rparr>"

definition mk_order :: "string \<Rightarrow> string \<Rightarrow> rat \<Rightarrow> rat \<Rightarrow> order" where
  "mk_order oid act q p =
     \<lparr> o_orderid = Some oid, o_exchange = ''NFO'', o_symbol = ''NIFTY24500CE'',
       o_product = ''NRML'', o_action = act, o_quantity = q, o_price = p, o_status = ''open'' \<rparr>"

definition mk_cycle :: "rat \<Rightarrow> rat \<Rightarrow> order list \<Rightarrow> execution list \<Rightarrow> time \<Rightarrow> cycle_in" where
  "mk_cycle q pos_avg orders xs now =
     \<lparr> totals = (q, pos_avg), open_orders = orders, execs = xs, now_reset = now, now_defer = now \<rparr>"


section \<open>Concrete scenarios\<close>



text \<open>The same three fills with the timestamps of the two BUYs exchanged.\<close>

definition chrono_a :: "execution list" where
  "chrono_a = [mk_exec 1 BUY 10 100, mk_exec 2 BUY 10 200, mk_exec 3 SELL 10 150]"


text \<open>A SELL older than the only BUY in the look-back window.\<close>

definition sell_before_buy :: "execution list" where
  "sell_before_buy = [mk_exec 1 SELL 5 100, mk_exec 2 BUY 10 100]"

definition buy_then_sell :: "execution list" where
  "buy_then_sell = [mk_exec 1 BUY 10 100, mk_exec 2 SELL 4 100]"

text \<open>A cache of capacity one, and four fetches that see the id E1 each time.\<close>

definition small_cache_config :: config where
  "small_cache_config = default_config\<lparr> MAX_EXEC_ID_CACHE := 1 \<rparr>"

definition refetch_batches :: "(time \<times> raw_row list) list" where
  "refetch_batches =
     [(0, [mk_row 0 ''BUY'' ''E1'']),
      (3, [mk_row 0 ''BUY'' ''E1'']),
      (6, [mk_row 0 ''BUY'' ''E1'', mk_row 0 ''BUY'' ''E2'']),
      (9, [mk_row 0 ''BUY'' ''E1''])]"

definition empty_cache :: dedup_cache where
  "empty_cache = \<lparr> ids = {}, clears = 0 \<rparr>"

text \<open>
  A position of 10 is protected by a SELL of 10; then the position grows to 20 while
  that SELL is still live. Both cycles run against the order book.
\<close>

definition fresh_instrument :: "(symbol_state \<times> rat) \<times> order list world" where
  "fresh_instrument =
     ((SymbolState ''NIFTY24500CE'' ''NFO'', 0), \<lparr> store = [], calls = [] \<rparr>)"

definition increase_cycle1 :: "(symbol_state \<times> rat) \<times> order list world" where
  "increase_cycle1 =
     book_cycle default_config ''NFO'' ''NIFTY24500CE'' (10, 100)
       [mk_exec 0 BUY 10 100] 1 fresh_instrument"

definition increase_cycle2 :: "(symbol_state \<times> rat) \<times> order list world" where
  "increase_cycle2 =
     book_cycle default_config ''NFO'' ''NIFTY24500CE'' (20, 100)
       [mk_exec 0 BUY 10 100, mk_exec 3 BUY 10 100] 4 increase_cycle1"

text \<open>Execution-based costing switched off.\<close>

definition no_executions_config :: config where
  "no_executions_config = default_config\<lparr> USE_EXECUTIONS := False \<rparr>"

text \<open>A world whose broker state carries nothing, for the client that always raises.\<close>

definition idle_world :: "unit world" where
  "idle_world = \<lparr> store = (), calls = [] \<rparr>"

text \<open>
  A session started at time 1 on a position of 7 bought earlier; 3 more are bought at
  time 2, so the session covers 3 of 10 and the ledger 10 of 10.
\<close>

definition tracking_since_1 :: "symbol_state \<times> rat" where
  "tracking_since_1 =
     (reset_session 1 ((SymbolState ''NIFTY24500CE'' ''NFO'')\<lparr> tracking := True \<rparr>), 7)"

definition partial_session_cycle :: cycle_in where
  "partial_session_cycle =
     mk_cycle 10 103 [] [mk_exec 0 BUY 7 100, mk_exec 2 BUY 3 110] 4"

text \<open>A first cycle on a position of 10 with nothing fetched and no open order.\<close>

definition first_cycle :: cycle_in where
  "first_cycle = mk_cycle 10 100 [] [] 1"



text \<open>A tracked instrument whose position has gone, with a SELL and a BUY still open.\<close>

definition tracked_state :: "symbol_state \<times> rat" where
  "tracked_state =
     ((SymbolState ''NIFTY24500CE'' ''NFO'')
        \<lparr> total_qty := 10, avg_price := 100, open_sell_id := Some ''M1'',
          open_sell_px := Some 105, open_sell_qty := Some 10, tracking := True,
          manual_override := True, session_start := Some 1, session_buy_qty := 10 \<rparr>, 10)"









section \<open>Properties\<close>

subsection \<open>The lot queue\<close>

lemma consume_pos:
  "\<forall>l\<in>set queue. 0 < fst l \<Longrightarrow> \<forall>l\<in>set (consume s queue). 0 < fst l"
  by (induction s queue rule: consume.induct) (auto simp: Let_def min_def split: if_splits)

lemma consume_sum:
  "\<forall>l\<in>set queue. 0 < fst l \<Longrightarrow>
   sum_list (map fst (consume s queue)) =
     (if 0 < s then max 0 (sum_list (map fst queue) - s) else sum_list (map fst queue))"
proof (induction s queue rule: consume.induct)
  case (1 s)
  then show ?case by simp
next
  case (2 s lq lp rest)
  have nn: "0 \<le> sum_list (map fst rest)"
    using 2(3) by (intro sum_list_nonneg) auto
  show ?case
    using 2 nn by (auto simp: Let_def min_def max_def split: if_splits)
qed

lemma ledger_step_pos:
  "\<forall>l\<in>set queue. 0 < fst l \<Longrightarrow> 0 < qty r \<Longrightarrow>
   \<forall>l\<in>set (ledger_step cfg e s queue r). 0 < fst l"
  using consume_pos[of queue "qty r"]
  by (auto simp: ledger_step_def split: side.splits)

lemma seed_queue_pos: "\<forall>l\<in>set (seed_queue cfg oq oa). 0 < fst l"
  by (simp add: seed_queue_def)

lemma ledger_fold_balance:
  "\<forall>l\<in>set queue. 0 < fst l \<Longrightarrow> \<forall>r\<in>set xs. 0 < qty r \<Longrightarrow>
   sum_list (map fst (foldl (ledger_step cfg e s) queue xs)) =
     running_balance cfg e s (sum_list (map fst queue)) xs"
proof (induction xs arbitrary: queue)
  case Nil
  then show ?case by simp
next
  case (Cons r rs)
  have pos: "\<forall>l\<in>set (ledger_step cfg e s queue r). 0 < fst l"
    using Cons.prems by (intro ledger_step_pos) auto
  have step: "sum_list (map fst (ledger_step cfg e s queue r)) =
      (if \<not> in_scope cfg e s r then sum_list (map fst queue)
       else if side r = BUY then sum_list (map fst queue) + qty r
       else max 0 (sum_list (map fst queue) - qty r))"
    using Cons.prems consume_sum[of queue "qty r"]
    by (cases "side r") (auto simp: ledger_step_def in_scope_def)
  show ?case
    using Cons.IH[OF pos] Cons.prems(2) step by simp
qed

lemma total_side_Cons:
  "total_side cfg e s sd (r # rs) =
     (if in_scope cfg e s r \<and> side r = sd then qty r else 0) + total_side cfg e s sd rs"
  by (simp add: total_side_def)

lemma running_balance_bounds:
  "\<forall>r\<in>set xs. 0 < qty r \<Longrightarrow> 0 \<le> q \<Longrightarrow>
   max 0 (q + total_side cfg e s BUY xs - total_side cfg e s SELL xs)
     \<le> running_balance cfg e s q xs
   \<and> running_balance cfg e s q xs \<le> q + total_side cfg e s BUY xs"
proof (induction xs arbitrary: q)
  case Nil
  then show ?case by (simp add: total_side_def)
next
  case (Cons r rs)
  have q: "0 < qty r" and rest: "\<forall>r\<in>set rs. 0 < qty r"
    using Cons.prems by auto
  show ?case
  proof (cases "in_scope cfg e s r")
    case False
    then show ?thesis using Cons.IH[OF rest Cons.prems(2)] by (simp add: total_side_Cons)
  next
    case True
    show ?thesis
    proof (cases "side r")
      case BUY
      have "0 \<le> q + qty r" using q Cons.prems(2) by simp
      from Cons.IH[OF rest this] True BUY show ?thesis
        by (simp add: total_side_Cons algebra_simps)
    next
      case SELL
      have "0 \<le> max 0 (q - qty r)" by simp
      from Cons.IH[OF rest this] True SELL q Cons.prems(2) show ?thesis
        by (auto simp: total_side_Cons max_def split: if_splits)
    qed
  qed
qed

lemma running_balance_covered:
  "covered cfg e s q xs \<Longrightarrow>
   running_balance cfg e s q xs = q + total_side cfg e s BUY xs - total_side cfg e s SELL xs"
proof (induction xs arbitrary: q)
  case Nil
  then show ?case by (simp add: total_side_def)
next
  case (Cons r rs)
  then show ?case
    by (cases "side r") (auto simp: total_side_Cons max_def split: if_splits)
qed

subsection \<open>Open quantity of the ledger\<close>

text \<open>
  Claim C3, as stated, fails: a SELL that finds the queue empty is dropped, so a later BUY
  is not reduced by it. With a SELL of 5 ahead of a BUY of 10 the ledger reports 10 open,
  not 5.
\<close>

theorem fifo_open_qty_counterexample:
  "fst (fifo_ledger_avg default_config sell_before_buy ''NFO'' ''NIFTY24500CE'' 0 0)
     \<noteq> max 0 (total_side default_config ''NFO'' ''NIFTY24500CE'' BUY sell_before_buy
               - total_side default_config ''NFO'' ''NIFTY24500CE'' SELL sell_before_buy)"
  by (simp add: sell_before_buy_def fifo_ledger_avg_def open_result_def seed_queue_def
        ledger_step_def mk_exec_def default_config_def total_side_def in_scope_def)

text \<open>
  Claim C3, amended: for executions of positive quantity, the open quantity of the ledger
  is the running balance that starts at the seeded quantity, grows by each BUY and shrinks
  by each SELL without going below zero. It is at least seed plus BUYs minus SELLs clamped
  at zero, at most seed plus BUYs, and equal to seed plus BUYs minus SELLs when no SELL
  exceeds what is open when it is applied.
\<close>

theorem fifo_open_qty:
  assumes "\<forall>r\<in>set xs. 0 < qty r"
  shows "fst (fifo_ledger_avg cfg xs e s oq oa) = running_balance cfg e s (seed_qty cfg oq oa) xs
       \<and> max 0 (seed_qty cfg oq oa + total_side cfg e s BUY xs - total_side cfg e s SELL xs)
           \<le> fst (fifo_ledger_avg cfg xs e s oq oa)
       \<and> fst (fifo_ledger_avg cfg xs e s oq oa) \<le> seed_qty cfg oq oa + total_side cfg e s BUY xs
       \<and> (covered cfg e s (seed_qty cfg oq oa) xs \<longrightarrow>
            fst (fifo_ledger_avg cfg xs e s oq oa) =
              seed_qty cfg oq oa + total_side cfg e s BUY xs - total_side cfg e s SELL xs)"
proof -
  have seed0: "0 \<le> seed_qty cfg oq oa"
    by (simp add: seed_qty_def seed_queue_def)
  have eq: "fst (fifo_ledger_avg cfg xs e s oq oa) = running_balance cfg e s (seed_qty cfg oq oa) xs"
    using ledger_fold_balance[OF seed_queue_pos assms]
    by (simp add: fifo_ledger_avg_def open_result_def Let_def seed_qty_def)
  show ?thesis
    using running_balance_bounds[OF assms seed0, of cfg e s]
      running_balance_covered[of cfg e s "seed_qty cfg oq oa" xs] eq
    by simp
qed

theorem fifo_open_qty_witness:
  "0 < qty (mk_exec 1 BUY 10 100) \<and> 0 < qty (mk_exec 2 SELL 4 100)
   \<and> fst (fifo_ledger_avg default_config buy_then_sell ''NFO'' ''NIFTY24500CE'' 0 0) = 6
   \<and> fst (fifo_ledger_avg default_config buy_then_sell ''NFO'' ''NIFTY24500CE'' 10 100) = 16"
proof -
  have pos: "\<forall>r\<in>set buy_then_sell. 0 < qty r"
    by (simp add: buy_then_sell_def mk_exec_def)
  have a: "fst (fifo_ledger_avg default_config buy_then_sell ''NFO'' ''NIFTY24500CE'' 0 0) = 6"
    using fifo_open_qty[OF pos, of default_config "''NFO''" "''NIFTY24500CE''" 0 0]
    by (simp add: buy_then_sell_def mk_exec_def default_config_def seed_qty_def seed_queue_def
          in_scope_def)
  have b: "fst (fifo_ledger_avg default_config buy_then_sell ''NFO'' ''NIFTY24500CE'' 10 100) = 16"
    using fifo_open_qty[OF pos, of default_config "''NFO''" "''NIFTY24500CE''" 10 100]
    by (simp add: buy_then_sell_def mk_exec_def default_config_def seed_qty_def seed_queue_def
          in_scope_def)
  show ?thesis using a b by (simp add: mk_exec_def)
qed

subsection \<open>The session engine against the ledger engine\<close>

lemma ledger_step_in_scope:
  "in_scope cfg e s r \<Longrightarrow> ledger_step cfg e s queue r = session_step queue r"
  by (cases "side r") (auto simp: ledger_step_def session_step_def in_scope_def)

lemma ledger_step_out_of_scope:
  "\<not> in_scope cfg e s r \<Longrightarrow> ledger_step cfg e s queue r = queue"
  by (auto simp: ledger_step_def in_scope_def)

lemma ledger_fold_session:
  "\<forall>r\<in>set xs. in_scope cfg e s r \<Longrightarrow>
   foldl (ledger_step cfg e s) queue xs = foldl session_step queue xs"
  by (induction xs arbitrary: queue) (simp_all add: ledger_step_in_scope)

lemma ledger_fold_filter:
  "foldl (ledger_step cfg e s) queue (filter (\<lambda>r. in_scope cfg e s r \<and> P r) xs) =
   foldl (ledger_step cfg e s) queue (filter P xs)"
  by (induction xs arbitrary: queue) (simp_all add: ledger_step_out_of_scope)

text \<open>
  Claim C7: the mini-ledger the supervisor builds inline for the session returns the same
  open quantity and the same weighted average as \<open>fifo_ledger_avg\<close> with no opening lot,
  applied to the executions of the session: to the list the supervisor filtered, and as
  well to the executions from the session start onward, which the ledger filters by
  instrument and product itself.
\<close>

theorem session_engine_refines_ledger:
  "session_engine cfg xs e s start = fifo_ledger_avg cfg (sess_execs cfg xs e s start) e s 0 0
   \<and> session_engine cfg xs e s start =
       fifo_ledger_avg cfg (filter (\<lambda>r. start \<le> time r) xs) e s 0 0"
proof -
  have scoped: "\<forall>r\<in>set (sess_execs cfg xs e s start). in_scope cfg e s r"
    by (simp add: sess_execs_def)
  have a: "session_engine cfg xs e s start =
      fifo_ledger_avg cfg (sess_execs cfg xs e s start) e s 0 0"
    using ledger_fold_session[OF scoped, of "[]"]
    by (simp add: session_engine_def fifo_ledger_avg_def open_result_def seed_queue_def Let_def)
  have b: "fifo_ledger_avg cfg (sess_execs cfg xs e s start) e s 0 0 =
      fifo_ledger_avg cfg (filter (\<lambda>r. start \<le> time r) xs) e s 0 0"
    by (simp add: fifo_ledger_avg_def sess_execs_def ledger_fold_filter)
  from a b show ?thesis by simp
qed

theorem session_engine_refines_ledger_witness:
  "session_engine default_config chrono_a ''NFO'' ''NIFTY24500CE'' 2 = (0, None)
   \<and> fifo_ledger_avg default_config (filter (\<lambda>r. 2 \<le> time r) chrono_a)
       ''NFO'' ''NIFTY24500CE'' 0 0 = (0, None)"
proof -
  have "fifo_ledger_avg default_config (filter (\<lambda>r. 2 \<le> time r) chrono_a)
       ''NFO'' ''NIFTY24500CE'' 0 0 = (0, None)"
    by (simp add: chrono_a_def fifo_ledger_avg_def open_result_def seed_queue_def
          ledger_step_def mk_exec_def default_config_def weighted_avg_def Let_def)
  then show ?thesis
    using session_engine_refines_ledger[of default_config chrono_a "''NFO''" "''NIFTY24500CE''" 2]
    by metis
qed

subsection \<open>Order of processing\<close>









subsection \<open>Rounding to binary64\<close>

lemma pow2_pos: "0 < pow2 e" by (simp add: pow2_def)

lemma pow2_nat: "0 \<le> e \<Longrightarrow> pow2 e = 2 ^ nat e" by (simp add: pow2_def)

lemma pow2_pred: "pow2 (e - 1) = pow2 e / 2"
proof -
  consider "1 \<le> e" | "e \<le> 0" by linarith
  then show ?thesis
  proof cases
    case 1
    then have "nat e = Suc (nat (e - 1))" by simp
    then show ?thesis using 1 by (simp add: pow2_def)
  next
    case 2
    then have "nat (- (e - 1)) = Suc (nat (- e))" by simp
    then show ?thesis using 2 by (simp add: pow2_def)
  qed
qed

lemma pow2_minus_nat: "pow2 (e - int n) = pow2 e / 2 ^ n"
proof (induction n)
  case 0
  then show ?case by simp
next
  case (Suc n)
  have "pow2 (e - int (Suc n)) = pow2 ((e - int n) - 1)" by (simp add: algebra_simps)
  also have "\<dots> = pow2 (e - int n) / 2" by (rule pow2_pred)
  finally show ?case using Suc by simp
qed

lemma pow2_plus_nat: "pow2 (e + int n) = pow2 e * 2 ^ n"
  using pow2_minus_nat[of "e + int n" n] by simp

lemma exponent_lower:
  assumes "x \<noteq> 0"
  shows "pow2 (exponent_of x) \<le> \<bar>x\<bar>"
proof -
  obtain n d where q: "quotient_of \<bar>x\<bar> = (n, d)" by (cases "quotient_of \<bar>x\<bar>")
  have d: "0 < d" using quotient_of_denom_pos[OF q] .
  have x: "\<bar>x\<bar> = of_int n / of_int d" using quotient_of_div[OF q] .
  have n: "0 < n"
  proof -
    have "0 < \<bar>x\<bar>" using assms by simp
    then have "0 < (of_int n / of_int d :: rat)" using x by simp
    then show ?thesis using d by (simp add: zero_less_divide_iff)
  qed
  define e0 where "e0 = bitlen n - bitlen d"
  have e: "exponent_of x = (if pow2 e0 \<le> \<bar>x\<bar> then e0 else e0 - 1)"
    by (simp add: exponent_of_def q e0_def Let_def)
  show ?thesis
  proof (cases "pow2 e0 \<le> \<bar>x\<bar>")
    case True
    then show ?thesis using e by simp
  next
    case False
    have bn: "2 ^ nat (bitlen n - 1) \<le> n" using bitlen_bounds[OF n] by simp
    have bd: "d < 2 ^ nat (bitlen d)" using bitlen_bounds[OF d] by simp
    have bn1: "1 \<le> bitlen n" using n bitlen_eq_zero_iff[of n] bitlen_nonneg[of n] by linarith
    have "pow2 (e0 - 1) = pow2 ((bitlen n - 1) - int (nat (bitlen d)))"
      using bitlen_nonneg[of d] by (simp add: e0_def algebra_simps)
    also have "\<dots> = pow2 (bitlen n - 1) / 2 ^ nat (bitlen d)" by (rule pow2_minus_nat)
    also have "\<dots> = 2 ^ nat (bitlen n - 1) / 2 ^ nat (bitlen d)"
      using bn1 by (simp add: pow2_nat)
    finally have p: "pow2 (e0 - 1) = 2 ^ nat (bitlen n - 1) / 2 ^ nat (bitlen d)" .
    have "(2 ^ nat (bitlen n - 1) :: rat) \<le> of_int n"
      using bn by (metis of_int_le_iff of_int_numeral of_int_power)
    moreover have "(of_int d :: rat) \<le> 2 ^ nat (bitlen d)"
      using bd by (metis less_imp_le of_int_le_iff of_int_numeral of_int_power)
    moreover have "(0 :: rat) < of_int d" using d by simp
    moreover have "(0 :: rat) \<le> of_int n" using n by simp
    ultimately have "(2 ^ nat (bitlen n - 1) / 2 ^ nat (bitlen d) :: rat) \<le> of_int n / of_int d"
      by (intro frac_le) simp_all
    then show ?thesis using e False p x by simp
  qed
qed

lemma py_round_cases:
  obtains f where "py_round x = f" "\<bar>of_int f - x\<bar> < 1 / 2"
  | f where "py_round x = f" "\<bar>of_int f - x\<bar> = 1 / 2" "even f"
proof -
  define f where "f = \<lfloor>x\<rfloor>"
  have fl: "of_int f \<le> x" "x < of_int f + 1" unfolding f_def by linarith+
  have r: "py_round x = (if x - of_int f < 1 / 2 then f
         else if 1 / 2 < x - of_int f then f + 1
         else if even f then f else f + 1)"
    by (simp add: py_round_def Let_def f_def)
  consider "x - of_int f < 1 / 2" | "1 / 2 < x - of_int f" | "x - of_int f = 1 / 2"
    by linarith
  then show thesis
  proof cases
    case 1
    then have "py_round x = f" "\<bar>of_int f - x\<bar> < 1 / 2" using r fl by auto
    then show ?thesis by (rule that(1))
  next
    case 2
    then have "py_round x = f + 1" "\<bar>of_int (f + 1) - x\<bar> < 1 / 2" using r fl by auto
    then show ?thesis by (rule that(1))
  next
    case 3
    show ?thesis
    proof (cases "even f")
      case True
      then have "py_round x = f" "\<bar>of_int f - x\<bar> = 1 / 2" using r 3 by auto
      then show ?thesis using True by (rule that(2))
    next
      case False
      then have "py_round x = f + 1" "\<bar>of_int (f + 1) - x\<bar> = 1 / 2" "even (f + 1)"
        using r 3 by auto
      then show ?thesis by (rule that(2))
    qed
  qed
qed

lemma py_round_near: "\<bar>of_int (py_round x) - x\<bar> \<le> 1 / 2"
  by (rule py_round_cases[of x]) auto

lemma py_round_tie: "\<bar>of_int (py_round x) - x\<bar> = 1 / 2 \<Longrightarrow> even (py_round x)"
  by (rule py_round_cases[of x]) auto

lemma py_round_unique:
  assumes "\<bar>x - of_int n\<bar> < 1 / 2"
  shows "py_round x = n"
proof -
  have "\<bar>(of_int (py_round x) :: rat) - of_int n\<bar> < 1"
    using py_round_near[of x] assms by linarith
  then have "\<bar>of_int (py_round x - n) :: rat\<bar> < 1" by simp
  then have "\<bar>py_round x - n\<bar> < 1"
    by (metis of_int_abs of_int_less_iff of_int_1)
  then show ?thesis by linarith
qed

lemma double_err: "\<bar>double x - x\<bar> \<le> \<bar>x\<bar> * ueps"
proof (cases "x = 0")
  case True
  then show ?thesis by (simp add: double_def)
next
  case False
  define ulp where "ulp = pow2 (exponent_of x - 52)"
  have up: "0 < ulp" by (simp add: ulp_def pow2_pos)
  have ulp: "ulp = pow2 (exponent_of x) / 2 ^ 52"
    using pow2_minus_nat[of "exponent_of x" 52] by (simp add: ulp_def)
  have d: "double x = of_int (py_round (x / ulp)) * ulp"
    using False by (simp add: double_def ulp_def Let_def)
  have "double x - x = (of_int (py_round (x / ulp)) - x / ulp) * ulp"
    using up by (simp add: d field_simps)
  then have "\<bar>double x - x\<bar> = \<bar>of_int (py_round (x / ulp)) - x / ulp\<bar> * ulp"
    using up by (simp add: abs_mult)
  also have "\<dots> \<le> (1 / 2) * ulp"
    using py_round_near[of "x / ulp"] up by (intro mult_right_mono) simp_all
  also have "\<dots> = pow2 (exponent_of x) * ueps"
    by (simp add: ulp ueps_def)
  also have "\<dots> \<le> \<bar>x\<bar> * ueps"
    using exponent_lower[OF False] by (intro mult_right_mono) (simp_all add: ueps_def)
  finally show ?thesis .
qed

lemma tick_product:
  assumes t: "t = double (of_int c / 100)" and b: "\<bar>of_int (k * c) :: rat\<bar> < 2 ^ 50"
  shows "py_round (double (of_int k * t) * 100) = k * c"
proof -
  define A :: rat where "A = of_int (k * c) / 100"
  define a where "a = \<bar>A\<bar>"
  have a0: "0 \<le> a" by (simp add: a_def)
  have u0: "0 \<le> ueps" by (simp add: ueps_def)
  have e1: "\<bar>of_int k * t - A\<bar> \<le> a * ueps"
  proof -
    have "of_int k * t - A = of_int k * (t - of_int c / 100)"
      by (simp add: A_def algebra_simps)
    then have "\<bar>of_int k * t - A\<bar> = \<bar>of_int k\<bar> * \<bar>t - of_int c / 100\<bar>"
      by (simp add: abs_mult)
    also have "\<dots> \<le> \<bar>of_int k\<bar> * (\<bar>of_int c / 100\<bar> * ueps)"
      using double_err[of "of_int c / 100"] unfolding t by (intro mult_left_mono) simp_all
    also have "\<dots> = a * ueps" by (simp add: a_def A_def abs_mult)
    finally show ?thesis .
  qed
  have kt: "\<bar>of_int k * t\<bar> \<le> a + a * ueps"
    using e1 unfolding a_def by linarith
  have e2: "\<bar>double (of_int k * t) - of_int k * t\<bar> \<le> (a + a * ueps) * ueps"
  proof -
    have "\<bar>double (of_int k * t) - of_int k * t\<bar> \<le> \<bar>of_int k * t\<bar> * ueps" by (rule double_err)
    also have "\<dots> \<le> (a + a * ueps) * ueps" using kt u0 by (intro mult_right_mono)
    finally show ?thesis .
  qed
  have "\<bar>double (of_int k * t) - A\<bar> \<le> a * ueps + (a + a * ueps) * ueps"
    using e1 e2 by linarith
  then have "\<bar>double (of_int k * t) * 100 - of_int (k * c)\<bar>
      \<le> 100 * (a * ueps + (a + a * ueps) * ueps)"
    by (simp add: A_def abs_if split: if_splits)
  also have "\<dots> = (100 * a) * (2 * ueps + ueps * ueps)" by (simp add: algebra_simps)
  also have "\<dots> < 2 ^ 50 * (2 * ueps + ueps * ueps)"
  proof -
    have "100 * a < 2 ^ 50" using b by (simp add: a_def A_def)
    moreover have "0 < 2 * ueps + ueps * ueps" by (simp add: ueps_def)
    ultimately show ?thesis by (intro mult_strict_right_mono)
  qed
  also have "\<dots> < 1 / 2" by (simp add: ueps_def)
  finally show ?thesis by (intro py_round_unique) simp
qed

lemma tick_quotient:
  assumes t: "t = double (of_int c / 100)" and c: "0 < c" and b: "\<bar>of_int (k * c) :: rat\<bar> < 2 ^ 50"
  shows "py_round (double (double (of_int (k * c) / 100) / t)) = k"
proof -
  define C :: rat where "C = of_int c / 100"
  define A :: rat where "A = of_int (k * c) / 100"
  define z where "z = double A"
  define K :: rat where "K = \<bar>of_int k\<bar>"
  have C0: "0 < C" using c by (simp add: C_def)
  have u0: "0 \<le> ueps" "ueps < 1" by (simp_all add: ueps_def)
  have AK: "\<bar>A\<bar> = K * C" using c by (simp add: A_def K_def C_def abs_mult)
  have A: "A = of_int k * C" by (simp add: A_def C_def)
  have tC: "\<bar>t - C\<bar> \<le> C * ueps"
    using double_err[of C] C0 unfolding t C_def[symmetric] by simp
  have tlow: "C * (1 - ueps) \<le> t" using tC by (simp add: algebra_simps abs_le_iff)
  have tpos: "0 < t"
  proof -
    have "0 < C * (1 - ueps)" using C0 u0 by simp
    then show ?thesis using tlow by linarith
  qed
  have zA: "\<bar>z - A\<bar> \<le> K * C * ueps"
    using double_err[of A] unfolding z_def AK .
  have zkt: "\<bar>z - of_int k * t\<bar> \<le> 2 * (K * C * ueps)"
  proof -
    have "\<bar>of_int k * t - A\<bar> = K * \<bar>t - C\<bar>"
      unfolding A K_def by (simp add: abs_mult[symmetric] algebra_simps)
    also have "\<dots> \<le> K * (C * ueps)" using tC by (intro mult_left_mono) (simp_all add: K_def)
    finally have "\<bar>of_int k * t - A\<bar> \<le> K * C * ueps" by (simp add: algebra_simps)
    then show ?thesis using zA by linarith
  qed
  have q1: "\<bar>z / t - of_int k\<bar> \<le> 2 * (K * C * ueps) / (C * (1 - ueps))"
  proof -
    have "z / t - of_int k = (z - of_int k * t) / t" using tpos by (simp add: field_simps)
    then have "\<bar>z / t - of_int k\<bar> = \<bar>z - of_int k * t\<bar> / t"
      using tpos by (simp only: abs_divide abs_of_pos)
    also have "\<dots> \<le> 2 * (K * C * ueps) / t"
      using zkt tpos by (intro divide_right_mono) simp_all
    also have "\<dots> \<le> 2 * (K * C * ueps) / (C * (1 - ueps))"
      using tlow tpos C0 u0 by (intro divide_left_mono mult_pos_pos) (simp_all add: K_def)
    finally show ?thesis .
  qed
  have q1': "\<bar>z / t - of_int k\<bar> \<le> K * (2 * ueps / (1 - ueps))"
  proof -
    have "2 * (K * C * ueps) / (C * (1 - ueps)) = K * (2 * ueps / (1 - ueps))"
      using C0 by simp
    then show ?thesis using q1 by simp
  qed
  have zt: "\<bar>z / t\<bar> \<le> K + K * (2 * ueps / (1 - ueps))"
    using q1' unfolding K_def by linarith
  have q2: "\<bar>double (z / t) - z / t\<bar> \<le> (K + K * (2 * ueps / (1 - ueps))) * ueps"
  proof -
    have "\<bar>double (z / t) - z / t\<bar> \<le> \<bar>z / t\<bar> * ueps" by (rule double_err)
    also have "\<dots> \<le> (K + K * (2 * ueps / (1 - ueps))) * ueps"
      using zt u0 by (intro mult_right_mono) simp_all
    finally show ?thesis .
  qed
  have "\<bar>double (z / t) - of_int k\<bar>
        \<le> K * (2 * ueps / (1 - ueps)) + (K + K * (2 * ueps / (1 - ueps))) * ueps"
    using q1' q2 by linarith
  also have "\<dots> = K * (2 * ueps / (1 - ueps) + (1 + 2 * ueps / (1 - ueps)) * ueps)"
    by (simp add: algebra_simps)
  also have "\<dots> < 2 ^ 50 * (2 * ueps / (1 - ueps) + (1 + 2 * ueps / (1 - ueps)) * ueps)"
  proof -
    have "K \<le> \<bar>of_int (k * c) :: rat\<bar>"
    proof -
      have "(1::rat) \<le> \<bar>of_int c\<bar>" using c by simp
      then have "K * 1 \<le> K * \<bar>of_int c :: rat\<bar>" by (intro mult_left_mono) (simp_all add: K_def)
      then show ?thesis by (simp add: K_def abs_mult)
    qed
    then have "K < 2 ^ 50" using b by linarith
    moreover have "0 < 2 * ueps / (1 - ueps) + (1 + 2 * ueps / (1 - ueps)) * ueps"
      by (simp add: ueps_def)
    ultimately show ?thesis by (intro mult_strict_right_mono)
  qed
  also have "\<dots> < 1 / 2" by (simp add: ueps_def)
  finally show ?thesis unfolding z_def A_def by (intro py_round_unique) simp
qed

subsection \<open>Rounding to the tick\<close>

lemma round_to_tick_ticks:
  assumes "t = double (of_int c / 100)" and "\<bar>of_int (k * c) :: rat\<bar> < 2 ^ 50"
  shows "py_round2 (fl_mul (of_int k) t) = double (of_int (k * c) / 100)"
  using tick_product[OF assms] by (simp add: py_round2_def fl_mul_def)

lemma tick_count_bound:
  assumes t: "t = double (of_int c / 100)" and c: "0 < c" "c \<le> 1000000"
    and s: "\<bar>s\<bar> \<le> 10 ^ 12"
  shows "\<bar>of_int (py_round (double (double s / t)) * c) :: rat\<bar> < 2 ^ 50"
proof -
  define C :: rat where "C = of_int c / 100"
  define p where "p = double s"
  define q where "q = double (p / t)"
  have C0: "0 < C" using c by (simp add: C_def)
  have u: "0 \<le> ueps" "ueps \<le> 1 / 10" by (simp_all add: ueps_def)
  have tC: "\<bar>t - C\<bar> \<le> C * ueps"
    using double_err[of C] C0 unfolding t C_def[symmetric] by simp
  have "ueps \<le> 1 / 100" by (simp add: ueps_def)
  then have "C * ueps \<le> C * (1 / 100)" using C0 by (intro mult_left_mono) simp_all
  then have tlow: "C \<le> t * (11 / 10)" using tC by (simp add: abs_le_iff)
  have tpos: "0 < t" using tlow C0 by (simp add: zero_less_mult_iff)
  have pb: "\<bar>p\<bar> \<le> \<bar>s\<bar> * (11 / 10)"
  proof -
    have "\<bar>p - s\<bar> \<le> \<bar>s\<bar> * ueps" unfolding p_def by (rule double_err)
    moreover have "\<bar>s\<bar> * ueps \<le> \<bar>s\<bar> * (1 / 10)" using u by (intro mult_left_mono) simp_all
    ultimately show ?thesis by linarith
  qed
  have r1: "\<bar>p / t\<bar> * C \<le> \<bar>p\<bar> * (11 / 10)"
  proof -
    have "\<bar>p / t\<bar> * C = \<bar>p\<bar> * (C / t)" using tpos by (simp add: abs_divide abs_of_pos)
    also have "\<dots> \<le> \<bar>p\<bar> * (11 / 10)"
      using tlow tpos by (intro mult_left_mono) (simp_all add: pos_divide_le_eq mult.commute)
    finally show ?thesis .
  qed
  have qb: "\<bar>q\<bar> \<le> \<bar>p / t\<bar> * (11 / 10)"
  proof -
    define r where "r = p / t"
    have "\<bar>q - r\<bar> \<le> \<bar>r\<bar> * ueps" unfolding q_def r_def by (rule double_err)
    moreover have "\<bar>r\<bar> * ueps \<le> \<bar>r\<bar> * (1 / 10)" using u by (intro mult_left_mono) simp_all
    ultimately have "\<bar>q\<bar> \<le> \<bar>r\<bar> * (11 / 10)" by linarith
    then show ?thesis by (simp only: r_def)
  qed
  have qC: "\<bar>q\<bar> * C \<le> \<bar>s\<bar> * (1331 / 1000)"
  proof -
    have "\<bar>q\<bar> * C \<le> \<bar>p / t\<bar> * (11 / 10) * C" using qb C0 by (intro mult_right_mono) simp_all
    also have "\<dots> = (\<bar>p / t\<bar> * C) * (11 / 10)" by simp
    also have "\<dots> \<le> (\<bar>p\<bar> * (11 / 10)) * (11 / 10)" using r1 by (intro mult_right_mono) simp_all
    also have "\<dots> \<le> (\<bar>s\<bar> * (11 / 10) * (11 / 10)) * (11 / 10)"
      using pb by (intro mult_right_mono) simp_all
    finally show ?thesis by simp
  qed
  have Kb: "\<bar>of_int (py_round q) :: rat\<bar> \<le> \<bar>q\<bar> + 1 / 2"
    using py_round_near[of q] by linarith
  have "\<bar>of_int (py_round q * c) :: rat\<bar> = \<bar>of_int (py_round q)\<bar> * (100 * C)"
    using c by (simp add: C_def abs_mult)
  also have "\<dots> \<le> (\<bar>q\<bar> + 1 / 2) * (100 * C)"
    using Kb C0 by (intro mult_right_mono) simp_all
  also have "\<dots> = 100 * (\<bar>q\<bar> * C) + of_int c / 2" by (simp add: C_def algebra_simps)
  also have "\<dots> \<le> 100 * (\<bar>s\<bar> * (1331 / 1000)) + 1000000 / 2"
  proof -
    have "(of_int c :: rat) \<le> 1000000" using c(2) by (metis of_int_le_iff of_int_numeral)
    then show ?thesis using qC by linarith
  qed
  also have "\<dots> \<le> 100 * (10 ^ 12 * (1331 / 1000)) + 1000000 / 2" using s by simp
  also have "\<dots> < 2 ^ 50" by simp
  finally show ?thesis by (simp add: q_def p_def)
qed


text \<open>
  Claim C8, as stated, fails: \<^verbatim>\<open>round_to_tick\<close> uses Python's \<^verbatim>\<open>round\<close>, which sends a
  tie to the even neighbour, not up. With the default margin 0.25 and tick 0.05, the
  average 0.075 gives the float sum 0.325, whose float quotient by the tick is exactly
  6.5: the code's target is 0.30 (six ticks), half-up rounding gives 0.35.
\<close>

theorem target_px_half_up_counterexample:
  "target_px default_config (double (3 / 40)) = double (3 / 10)
   \<and> spec_target_px default_config (double (3 / 40)) = double (7 / 20)
   \<and> double (3 / 10) \<noteq> double (7 / 20)"
  by code_simp

text \<open>
  Claim C8, amended: let the tick be the float nearest to \<open>c\<close> hundredths, \<open>0 < c \<le> 10 ^ 6\<close>
  (the default 0.05 is \<open>c = 5\<close>), and let the chosen average plus the margin be at most
  \<open>10 ^ 12\<close> in size. The target price is then a whole number \<open>n\<close> of ticks written
  with two decimals, the float nearest to \<open>n * c / 100\<close>, where \<open>n\<close> is the float quotient of
  the float sum by the tick, rounded to the nearest integer with a tie going to the even
  integer. This \<open>n\<close> is within \<open>1 / 2 + \<bar>x\<bar> / 2 ^ 53\<close> of the exact quotient \<open>x\<close> of the
  float sum by the tick: the nearest tick count, but for the rounding of the division,
  which decides the side next to a half-tick boundary. And rounding a price that is
  already tick-aligned, the float nearest to \<open>k * c / 100\<close> with \<open>\<bar>k * c\<bar> < 2 ^ 50\<close>,
  returns the same price.
\<close>

theorem target_px_nearest_tick:
  assumes "TICK_SIZE_OPT cfg = double (of_int c / 100)" and "0 < c" and "c \<le> 1000000"
    and "\<bar>avg + AUTO_SELL_MARGIN_OPT cfg\<bar> \<le> 10 ^ 12"
    and "\<bar>of_int (k * c) :: rat\<bar> < 2 ^ 50"
  shows "target_px cfg avg =
           double (of_int (py_round (fl_div (fl_add avg (AUTO_SELL_MARGIN_OPT cfg)) (TICK_SIZE_OPT cfg)) * c) / 100)
    \<and> \<bar>of_int (py_round (fl_div (fl_add avg (AUTO_SELL_MARGIN_OPT cfg)) (TICK_SIZE_OPT cfg)))
          - fl_add avg (AUTO_SELL_MARGIN_OPT cfg) / TICK_SIZE_OPT cfg\<bar>
        \<le> 1 / 2 + \<bar>fl_add avg (AUTO_SELL_MARGIN_OPT cfg) / TICK_SIZE_OPT cfg\<bar> * ueps
    \<and> (\<bar>of_int (py_round (fl_div (fl_add avg (AUTO_SELL_MARGIN_OPT cfg)) (TICK_SIZE_OPT cfg)))
          - fl_div (fl_add avg (AUTO_SELL_MARGIN_OPT cfg)) (TICK_SIZE_OPT cfg)\<bar> = 1 / 2
         \<longrightarrow> even (py_round (fl_div (fl_add avg (AUTO_SELL_MARGIN_OPT cfg)) (TICK_SIZE_OPT cfg))))
    \<and> round_to_tick (double (of_int (k * c) / 100)) (TICK_SIZE_OPT cfg)
        = double (of_int (k * c) / 100)"
proof -
  define t where "t = TICK_SIZE_OPT cfg"
  define p where "p = fl_add avg (AUTO_SELL_MARGIN_OPT cfg)"
  define n where "n = py_round (fl_div p t)"
  have t: "t = double (of_int c / 100)" using assms(1) by (simp add: t_def)
  have nb: "\<bar>of_int (n * c) :: rat\<bar> < 2 ^ 50"
    unfolding n_def fl_div_def p_def fl_add_def
    using t assms(2,3,4) by (rule tick_count_bound)
  have eq: "target_px cfg avg = double (of_int (n * c) / 100)"
    using round_to_tick_ticks[OF t nb]
    by (simp add: target_px_def round_to_tick_def n_def p_def t_def)
  have near: "\<bar>of_int n - p / t\<bar> \<le> 1 / 2 + \<bar>p / t\<bar> * ueps"
  proof -
    have "\<bar>of_int n - fl_div p t\<bar> \<le> 1 / 2" unfolding n_def by (rule py_round_near)
    moreover have "\<bar>fl_div p t - p / t\<bar> \<le> \<bar>p / t\<bar> * ueps"
      unfolding fl_div_def by (rule double_err)
    ultimately show ?thesis by linarith
  qed
  have tie: "even n" if "\<bar>of_int n - fl_div p t\<bar> = 1 / 2"
    using that unfolding n_def by (rule py_round_tie)
  have idem: "round_to_tick (double (of_int (k * c) / 100)) t = double (of_int (k * c) / 100)"
  proof -
    have "py_round (fl_div (double (of_int (k * c) / 100)) t) = k"
      unfolding fl_div_def using t assms(2,5) by (rule tick_quotient)
    then show ?thesis
      using round_to_tick_ticks[OF t assms(5)] by (simp add: round_to_tick_def)
  qed
  show ?thesis
    using eq near tie idem unfolding n_def p_def t_def by simp
qed

theorem target_px_nearest_tick_witness:
  "TICK_SIZE_OPT default_config = double (of_int 5 / 100)
   \<and> \<bar>100 + AUTO_SELL_MARGIN_OPT default_config\<bar> \<le> 10 ^ 12
   \<and> \<bar>of_int (2005 * 5) :: rat\<bar> < 2 ^ 50
   \<and> py_round (fl_div (fl_add 100 (AUTO_SELL_MARGIN_OPT default_config)) (TICK_SIZE_OPT default_config))
       = 2005
   \<and> target_px default_config 100 = double (of_int (2005 * 5) / 100)
   \<and> round_to_tick (double (of_int (2005 * 5) / 100)) (TICK_SIZE_OPT default_config) = 401 / 4"
proof -
  have h: "TICK_SIZE_OPT default_config = double (of_int 5 / 100)" "(0::int) < 5" "(5::int) \<le> 1000000"
    by (simp_all add: default_config_def)
  have m: "AUTO_SELL_MARGIN_OPT default_config = 1 / 4" by code_simp
  have b: "\<bar>100 + AUTO_SELL_MARGIN_OPT default_config\<bar> \<le> 10 ^ 12" by (simp add: m)
  have kb: "\<bar>of_int (2005 * 5) :: rat\<bar> < 2 ^ 50" by simp
  have n: "py_round (fl_div (fl_add 100 (AUTO_SELL_MARGIN_OPT default_config))
       (TICK_SIZE_OPT default_config)) = 2005"
    by code_simp
  have v: "double (of_int (2005 * 5) / 100) = 401 / 4" by code_simp
  show ?thesis
    using target_px_nearest_tick[OF h b kb] h(1) b kb n v by simp
qed

subsection \<open>De-duplication by execution id\<close>

lemma fetch_step_shape:
  "fetch_step cfg cutoff (n, c) r = (n, c)
   \<or> (\<exists>row. fetch_step cfg cutoff (n, c) r = (n @ [row], c) \<and> exec_id row = None)
   \<or> (\<exists>row j. fetch_step cfg cutoff (n, c) r = (n @ [row], c\<lparr>ids := insert j (ids c)\<rparr>)
         \<and> exec_id row = Some j \<and> j \<notin> ids c)
   \<or> (\<exists>row j. fetch_step cfg cutoff (n, c) r = (n @ [row], \<lparr>ids = {}, clears = Suc (clears c)\<rparr>)
         \<and> exec_id row = Some j \<and> j \<notin> ids c)"
  by (simp add: fetch_step_def Let_def split: option.splits)

lemma fetch_step_cases:
  obtains (skip) "fetch_step cfg cutoff (n, c) r = (n, c)"
  | (noid) row where "fetch_step cfg cutoff (n, c) r = (n @ [row], c)" "exec_id row = None"
  | (add) row j where "fetch_step cfg cutoff (n, c) r = (n @ [row], c\<lparr>ids := insert j (ids c)\<rparr>)"
      "exec_id row = Some j" "j \<notin> ids c"
  | (clear) row j where
      "fetch_step cfg cutoff (n, c) r = (n @ [row], \<lparr>ids = {}, clears = Suc (clears c)\<rparr>)"
      "exec_id row = Some j" "j \<notin> ids c"
  using fetch_step_shape[of cfg cutoff n c r] by blast

lemma fetch_step_clears_mono: "clears c \<le> clears (snd (fetch_step cfg cutoff (n, c) r))"
  by (cases rule: fetch_step_cases[of cfg cutoff n c r]) auto

lemma fetch_fold_clears_mono:
  "clears (snd acc) \<le> clears (snd (foldl (fetch_step cfg cutoff) acc rows))"
proof (induction rows arbitrary: acc)
  case Nil
  then show ?case by simp
next
  case (Cons r rows)
  have "clears (snd acc) \<le> clears (snd (fetch_step cfg cutoff acc r))"
    using fetch_step_clears_mono[of "snd acc" cfg cutoff "fst acc" r] by simp
  also have "\<dots> \<le> clears (snd (foldl (fetch_step cfg cutoff) (fetch_step cfg cutoff acc r) rows))"
    by (rule Cons.IH)
  finally show ?case by simp
qed

lemma fetch_step_keeps:
  assumes "i \<in> ids c" and "clears (snd (fetch_step cfg cutoff (n, c) r)) = clears c"
  shows "i \<in> ids (snd (fetch_step cfg cutoff (n, c) r))"
    and "\<forall>e\<in>set (fst (fetch_step cfg cutoff (n, c) r)). exec_id e = Some i \<longrightarrow> e \<in> set n"
  using assms by (atomize(full), cases rule: fetch_step_cases[of cfg cutoff n c r]) auto

lemma fetch_step_caches:
  assumes "\<forall>e\<in>set n. \<forall>j. exec_id e = Some j \<longrightarrow> j \<in> ids c"
    and "clears (snd (fetch_step cfg cutoff (n, c) r)) = clears c"
  shows "\<forall>e\<in>set (fst (fetch_step cfg cutoff (n, c) r)). \<forall>j. exec_id e = Some j \<longrightarrow>
           j \<in> ids (snd (fetch_step cfg cutoff (n, c) r))"
  using assms by (cases rule: fetch_step_cases[of cfg cutoff n c r]) auto

lemma fetch_fold_keeps:
  assumes "i \<in> ids c" and "clears (snd (foldl (fetch_step cfg cutoff) (n, c) rows)) = clears c"
  shows "i \<in> ids (snd (foldl (fetch_step cfg cutoff) (n, c) rows))
       \<and> (\<forall>e\<in>set (fst (foldl (fetch_step cfg cutoff) (n, c) rows)). exec_id e = Some i \<longrightarrow> e \<in> set n)"
  using assms
proof (induction rows arbitrary: n c)
  case Nil
  then show ?case by simp
next
  case (Cons r rows)
  obtain n1 c1 where s1: "fetch_step cfg cutoff (n, c) r = (n1, c1)"
    by (cases "fetch_step cfg cutoff (n, c) r")
  have "clears c \<le> clears c1" using fetch_step_clears_mono[of c cfg cutoff n r] s1 by simp
  moreover have "clears c1 \<le> clears (snd (foldl (fetch_step cfg cutoff) (n1, c1) rows))"
    using fetch_fold_clears_mono[of "(n1, c1)" cfg cutoff rows] by simp
  ultimately have eq1: "clears c1 = clears c"
    and eq2: "clears (snd (foldl (fetch_step cfg cutoff) (n1, c1) rows)) = clears c1"
    using Cons.prems(2) s1 by simp_all
  have k: "i \<in> ids c1" "\<forall>e\<in>set n1. exec_id e = Some i \<longrightarrow> e \<in> set n"
    using fetch_step_keeps[OF Cons.prems(1), of cfg cutoff n r] eq1 s1 by simp_all
  from Cons.IH[OF k(1) eq2] k(2) s1 show ?case by auto
qed

lemma fetch_fold_caches:
  assumes "\<forall>e\<in>set n. \<forall>j. exec_id e = Some j \<longrightarrow> j \<in> ids c"
    and "clears (snd (foldl (fetch_step cfg cutoff) (n, c) rows)) = clears c"
  shows "\<forall>e\<in>set (fst (foldl (fetch_step cfg cutoff) (n, c) rows)). \<forall>j. exec_id e = Some j \<longrightarrow>
           j \<in> ids (snd (foldl (fetch_step cfg cutoff) (n, c) rows))"
  using assms
proof (induction rows arbitrary: n c)
  case Nil
  then show ?case by simp
next
  case (Cons r rows)
  obtain n1 c1 where s1: "fetch_step cfg cutoff (n, c) r = (n1, c1)"
    by (cases "fetch_step cfg cutoff (n, c) r")
  have "clears c \<le> clears c1" using fetch_step_clears_mono[of c cfg cutoff n r] s1 by simp
  moreover have "clears c1 \<le> clears (snd (foldl (fetch_step cfg cutoff) (n1, c1) rows))"
    using fetch_fold_clears_mono[of "(n1, c1)" cfg cutoff rows] by simp
  ultimately have eq1: "clears c1 = clears c"
    and eq2: "clears (snd (foldl (fetch_step cfg cutoff) (n1, c1) rows)) = clears c1"
    using Cons.prems(2) s1 by simp_all
  have k: "\<forall>e\<in>set n1. \<forall>j. exec_id e = Some j \<longrightarrow> j \<in> ids c1"
    using fetch_step_caches[OF Cons.prems(1), of cfg cutoff r] eq1 s1 by simp
  from Cons.IH[OF k eq2] s1 show ?case by simp
qed

lemma fetch_call_clears_mono:
  "clears c \<le> clears (snd (fetch_executions_lookback cfg now rows c))"
  using fetch_fold_clears_mono[of "([], c)" cfg _ rows]
  by (simp add: fetch_executions_lookback_def Let_def split: prod.splits) (metis snd_conv)

lemma fetch_call_keeps:
  assumes "i \<in> ids c" and "clears (snd (fetch_executions_lookback cfg now rows c)) = clears c"
  shows "i \<in> ids (snd (fetch_executions_lookback cfg now rows c))
       \<and> (\<forall>e\<in>set (fst (fetch_executions_lookback cfg now rows c)). exec_id e \<noteq> Some i)"
proof -
  define cutoff where "cutoff = now - of_int (LEDGER_LOOKBACK_DAYS cfg) * 86400"
  obtain n1 c1 where f: "foldl (fetch_step cfg cutoff) ([], c) rows = (n1, c1)"
    by (cases "foldl (fetch_step cfg cutoff) ([], c) rows")
  have r: "fetch_executions_lookback cfg now rows c = (sort_key time n1, c1)"
    by (simp add: fetch_executions_lookback_def Let_def cutoff_def[symmetric] f)
  have "clears (snd (foldl (fetch_step cfg cutoff) ([], c) rows)) = clears c"
    using assms(2) r f by simp
  from fetch_fold_keeps[OF assms(1) this] f r show ?thesis by auto
qed

lemma fetch_call_caches:
  assumes "clears (snd (fetch_executions_lookback cfg now rows c)) = clears c"
  shows "\<forall>e\<in>set (fst (fetch_executions_lookback cfg now rows c)). \<forall>j. exec_id e = Some j \<longrightarrow>
           j \<in> ids (snd (fetch_executions_lookback cfg now rows c))"
proof -
  define cutoff where "cutoff = now - of_int (LEDGER_LOOKBACK_DAYS cfg) * 86400"
  obtain n1 c1 where f: "foldl (fetch_step cfg cutoff) ([], c) rows = (n1, c1)"
    by (cases "foldl (fetch_step cfg cutoff) ([], c) rows")
  have r: "fetch_executions_lookback cfg now rows c = (sort_key time n1, c1)"
    by (simp add: fetch_executions_lookback_def Let_def cutoff_def[symmetric] f)
  have "clears (snd (foldl (fetch_step cfg cutoff) ([], c) rows)) = clears c"
    using assms r f by simp
  from fetch_fold_caches[of "[]" c cfg cutoff rows] this f r show ?thesis by simp
qed

lemma fetch_calls_clears_mono: "clears c \<le> clears (snd (fetch_calls cfg batches c))"
proof (induction batches arbitrary: c)
  case Nil
  then show ?case by simp
next
  case (Cons b batches)
  obtain now rows where b: "b = (now, rows)" by (cases b)
  obtain out c1 where o: "fetch_executions_lookback cfg now rows c = (out, c1)"
    by (cases "fetch_executions_lookback cfg now rows c")
  have "clears c \<le> clears c1" using fetch_call_clears_mono[of c cfg now rows] o by simp
  also have "\<dots> \<le> clears (snd (fetch_calls cfg batches c1))" by (rule Cons.IH)
  finally show ?case by (auto simp: b o split: prod.splits)
qed

lemma fetch_calls_keeps:
  assumes "i \<in> ids c" and "clears (snd (fetch_calls cfg batches c)) = clears c"
  shows "i \<in> ids (snd (fetch_calls cfg batches c))
       \<and> (\<forall>out\<in>set (fst (fetch_calls cfg batches c)). \<forall>e\<in>set out. exec_id e \<noteq> Some i)"
  using assms
proof (induction batches arbitrary: c)
  case Nil
  then show ?case by simp
next
  case (Cons b batches)
  obtain now rows where b: "b = (now, rows)" by (cases b)
  obtain out c1 where o: "fetch_executions_lookback cfg now rows c = (out, c1)"
    by (cases "fetch_executions_lookback cfg now rows c")
  obtain outs c2 where r: "fetch_calls cfg batches c1 = (outs, c2)"
    by (cases "fetch_calls cfg batches c1")
  have all: "fetch_calls cfg (b # batches) c = (out # outs, c2)"
    by (simp add: b o r)
  have "clears c \<le> clears c1" using fetch_call_clears_mono[of c cfg now rows] o by simp
  moreover have "clears c1 \<le> clears c2" using fetch_calls_clears_mono[of c1 cfg batches] r by simp
  ultimately have e1: "clears c1 = clears c" and e2: "clears c2 = clears c1"
    using Cons.prems(2) all by simp_all
  have k: "i \<in> ids c1" "\<forall>e\<in>set out. exec_id e \<noteq> Some i"
    using fetch_call_keeps[OF Cons.prems(1), of cfg now rows] e1 o by simp_all
  have "clears (snd (fetch_calls cfg batches c1)) = clears c1" using e2 r by simp
  from Cons.IH[OF k(1) this] k(2) all r show ?case by simp
qed

lemma refetch_example:
  "map (map exec_id) (fst (fetch_calls small_cache_config refetch_batches empty_cache))
     = [[Some ''E1''], [], [Some ''E2''], [Some ''E1'']]
   \<and> clears (snd (fetch_calls small_cache_config refetch_batches empty_cache)) = 1"
  by (simp add: small_cache_config_def refetch_batches_def empty_cache_def default_config_def
        fetch_executions_lookback_def fetch_step_def mk_row_def truthy_def side_of_def Let_def)

text \<open>
  Claim C6: a fetch that does not clear the cache leaves the id of every execution it
  yields in the cache; an id that is in the cache is yielded by no later fetch, and stays
  in the cache, for as long as the cache is not cleared; and once the cache has exceeded
  its capacity and has been cleared, the id is yielded again (with capacity one: E1 is
  yielded by the first fetch, skipped by the second and third, and, the third having
  cleared the cache on E2, yielded again by the fourth).
\<close>

theorem exec_id_dedup:
  "(clears (snd (fetch_executions_lookback cfg now rows cache)) = clears cache \<longrightarrow>
      (\<forall>e\<in>set (fst (fetch_executions_lookback cfg now rows cache)). \<forall>j. exec_id e = Some j \<longrightarrow>
         j \<in> ids (snd (fetch_executions_lookback cfg now rows cache))))
   \<and> (i \<in> ids cache \<and> clears (snd (fetch_calls cfg batches cache)) = clears cache \<longrightarrow>
        i \<in> ids (snd (fetch_calls cfg batches cache))
        \<and> (\<forall>out\<in>set (fst (fetch_calls cfg batches cache)). \<forall>e\<in>set out. exec_id e \<noteq> Some i))
   \<and> map (map exec_id) (fst (fetch_calls small_cache_config refetch_batches empty_cache))
       = [[Some ''E1''], [], [Some ''E2''], [Some ''E1'']]"
  using fetch_call_caches[of cfg now rows cache] fetch_calls_keeps[of i cache cfg batches]
    refetch_example
  by blast

theorem exec_id_dedup_witness:
  "''E1'' \<in> ids \<lparr> ids = {''E1''}, clears = 0 \<rparr>
   \<and> clears (snd (fetch_calls default_config
        [(0, [mk_row 0 ''BUY'' ''E1'', mk_row 0 ''SELL'' ''E2'']), (3, [mk_row 0 ''BUY'' ''E1''])]
        \<lparr> ids = {''E1''}, clears = 0 \<rparr>)) = 0
   \<and> map (map exec_id) (fst (fetch_calls default_config
        [(0, [mk_row 0 ''BUY'' ''E1'', mk_row 0 ''SELL'' ''E2'']), (3, [mk_row 0 ''BUY'' ''E1''])]
        \<lparr> ids = {''E1''}, clears = 0 \<rparr>)) = [[Some ''E2''], []]
   \<and> ''E1'' \<in> ids (snd (fetch_calls default_config
        [(0, [mk_row 0 ''BUY'' ''E1'', mk_row 0 ''SELL'' ''E2'']), (3, [mk_row 0 ''BUY'' ''E1''])]
        \<lparr> ids = {''E1''}, clears = 0 \<rparr>))"
proof -
  have run: "fetch_calls default_config
        [(0, [mk_row 0 ''BUY'' ''E1'', mk_row 0 ''SELL'' ''E2'']), (3, [mk_row 0 ''BUY'' ''E1''])]
        \<lparr> ids = {''E1''}, clears = 0 \<rparr>
      = ([[mk_exec 0 SELL 10 100\<lparr> exec_id := Some ''E2'' \<rparr>], []],
         \<lparr> ids = {''E2'', ''E1''}, clears = 0 \<rparr>)"
    by (simp add: default_config_def fetch_executions_lookback_def fetch_step_def mk_row_def
          mk_exec_def truthy_def side_of_def Let_def)
  show ?thesis
    using exec_id_dedup[of default_config 0 "[]" "\<lparr> ids = {''E1''}, clears = 0 \<rparr>" "''E1''"
        "[(0, [mk_row 0 ''BUY'' ''E1'', mk_row 0 ''SELL'' ''E2'']), (3, [mk_row 0 ''BUY'' ''E1''])]"]
    unfolding run by (simp add: mk_exec_def)
qed

subsection \<open>Choice of the cost source\<close>

lemma open_result_avg_iff: "snd (open_result queue) = None \<longleftrightarrow> fst (open_result queue) \<le> 0"
  by (auto simp: open_result_def Let_def)

lemma ledger_phase_avg_iff:
  "snd (ledger_phase cfg xs e s q pa st) = None \<longleftrightarrow> fst (ledger_phase cfg xs e s q pa st) \<le> 0"
  by (simp add: ledger_phase_def fifo_ledger_avg_def open_result_avg_iff)

lemma session_phase_avg_pos:
  "fst (session_phase cfg xs e s st) \<noteq> None \<Longrightarrow>
   0 < session_buy_qty (snd (session_phase cfg xs e s st))"
  by (auto simp: session_phase_def session_engine_def Let_def split: option.splits if_splits)

lemma choose_avg_policy:
  assumes "0 < q" and "USE_EXECUTIONS cfg"
    and "sa \<noteq> None \<longrightarrow> 0 < sbq" and "la = None \<longleftrightarrow> lq \<le> 0"
  shows "choice_parts (choose_avg cfg sa sbq q lq la pa ss now) = spec_policy cfg sa sbq q lq la pa ss now"
proof -
  have cov: "ledger_covers la lq q \<longleftrightarrow> 95 / 100 * q \<le> lq"
  proof
    assume "ledger_covers la lq q"
    then show "95 / 100 * q \<le> lq" by (simp add: ledger_covers_def mult.commute)
  next
    assume a: "95 / 100 * q \<le> lq"
    have "0 < 95 / 100 * q" using assms(1) by simp
    then have "0 < lq" using a by linarith
    then have "la \<noteq> None" using assms(4) by auto
    then show "ledger_covers la lq q" using a by (simp add: ledger_covers_def mult.commute)
  qed
  show ?thesis
    using assms cov
    by (cases sa; cases la) (auto simp: choose_avg_def spec_policy_def choice_parts_def Let_def)
qed

text \<open>
  Claim C2, as stated, fails: the defer branch is guarded by \<^verbatim>\<open>USE_EXECUTIONS\<close>. With
  execution-based costing switched off, a first cycle inside the defer window does not
  defer but takes the position average at once.
\<close>

theorem defer_needs_executions_counterexample:
  "choice_parts (fst (costing no_executions_config ''NFO'' ''NIFTY24500CE'' first_cycle
       (SymbolState ''NIFTY24500CE'' ''NFO'', 0))) = (Some Position_UNSAFE, Some 100)
   \<and> spec_costing no_executions_config ''NFO'' ''NIFTY24500CE'' first_cycle
       (SymbolState ''NIFTY24500CE'' ''NFO'', 0) = (None, None)"
  by (simp add: costing_def spec_costing_def no_executions_config_def default_config_def
        first_cycle_def mk_cycle_def SymbolState_def start_tracking_def reset_session_def
        ledger_phase_def session_phase_def choose_avg_def ledger_covers_def spec_policy_def
        choice_parts_def Let_def)

text \<open>
  Claim C2, amended: with execution-based costing enabled, for every cycle and every
  instrument with positive net quantity the source and average the cycle chooses are the
  ones of the six-branch priority applied to the values the cycle computes; the defer
  branch exists only with execution-based costing enabled. A session covering 3 of 10
  while the ledger covers 10 of 10 selects the ledger.
\<close>

theorem costing_policy:
  assumes "0 < fst (totals inp)" and "USE_EXECUTIONS cfg"
  shows "choice_parts (fst (costing cfg e s inp sl)) = spec_costing cfg e s inp sl
       \<and> choose_avg cfg (Some a) 3 10 10 (Some b) pa ss now = Chosen b Ledger"
proof -
  obtain st prev where sl: "sl = (st, prev)" by (cases sl)
  obtain q pos where t: "totals inp = (q, pos)" by (cases "totals inp")
  define st2 where "st2 = start_tracking (now_reset inp) prev q st"
  have q: "0 < q" using assms(1) t by simp
  have "choice_parts (choose_avg cfg
            (fst (session_phase cfg (execs inp) e s st2))
            (session_buy_qty (snd (session_phase cfg (execs inp) e s st2))) q
            (fst (ledger_phase cfg (execs inp) e s q pos st2))
            (snd (ledger_phase cfg (execs inp) e s q pos st2)) pos
            (session_start (snd (session_phase cfg (execs inp) e s st2))) (now_defer inp))
       = spec_policy cfg
            (fst (session_phase cfg (execs inp) e s st2))
            (session_buy_qty (snd (session_phase cfg (execs inp) e s st2))) q
            (fst (ledger_phase cfg (execs inp) e s q pos st2))
            (snd (ledger_phase cfg (execs inp) e s q pos st2)) pos
            (session_start (snd (session_phase cfg (execs inp) e s st2))) (now_defer inp)"
    using q assms(2) session_phase_avg_pos[of cfg "execs inp" e s st2]
      ledger_phase_avg_iff[of cfg "execs inp" e s q pos st2]
    by (intro choose_avg_policy) auto
  then have "choice_parts (fst (costing cfg e s inp sl)) = spec_costing cfg e s inp sl"
    by (simp add: costing_def spec_costing_def sl t st2_def Let_def case_prod_beta)
  moreover have "choose_avg cfg (Some a) 3 10 10 (Some b) pa ss now = Chosen b Ledger"
    by (simp add: choose_avg_def ledger_covers_def Let_def)
  ultimately show ?thesis by simp
qed

theorem costing_policy_witness:
  "0 < fst (totals partial_session_cycle) \<and> USE_EXECUTIONS default_config
   \<and> choice_parts (fst (costing default_config ''NFO'' ''NIFTY24500CE'' partial_session_cycle
        tracking_since_1)) = (Some Ledger, Some 103)"
proof -
  have h: "0 < fst (totals partial_session_cycle)" "USE_EXECUTIONS default_config"
    by (simp_all add: partial_session_cycle_def mk_cycle_def default_config_def)
  have v: "spec_costing default_config ''NFO'' ''NIFTY24500CE'' partial_session_cycle
        tracking_since_1 = (Some Ledger, Some 103)"
    by code_simp
  show ?thesis
    using costing_policy[OF h, of "''NFO''" "''NIFTY24500CE''" tracking_since_1] h v
    by simp
qed

subsection \<open>Placement\<close>




lemma inspect_none:
  "find (sell_at q) orders = None \<Longrightarrow> inspect_orders q t orders st = (False, False, st)"
  by (simp add: inspect_orders_def)

lemma ensure_one_sell_raises:
  assumes "fst (placeorder cl (place_request cfg e s q avg) (store w)) = Inl err"
  shows "fst (ensure_one_sell cl cfg e s q avg w) = (None, None, None)"
  using assms
  by (cases "placeorder cl (place_request cfg e s q avg) (store w)")
     (auto simp: ensure_one_sell_def Let_def)

lemma maintain_order_raises:
  assumes "\<And>req b. fst (placeorder cl req b) = Inl err"
    and "find (sell_at q) orders = None"
  shows "open_sell_id (fst (maintain_order cl cfg e s q avg orders st w)) = None
       \<and> open_sell_px (fst (maintain_order cl cfg e s q avg orders st w)) = None
       \<and> open_sell_qty (fst (maintain_order cl cfg e s q avg orders st w)) = None"
proof -
  have f: "fst (ensure_one_sell cl cfg e s q avg w') = (None, None, None)" for w'
    using assms(1) by (intro ensure_one_sell_raises)
  show ?thesis
    using f[of w] f[of "cancel_existing_sells cl orders w"]
    by (auto simp: maintain_order_def Let_def inspect_none[OF assms(2)] split: prod.splits)
qed

text \<open>
  Claim C10: called with a quantity that is not positive, \<open>ensure_one_sell\<close> returns three
  \<open>None\<close> and leaves the world as it was, so no placement is issued; called with a positive
  quantity on a client whose placement raises, it returns three \<open>None\<close> as well; and the
  supervisor, which stores the three values as the owned order, then records no order.
\<close>

theorem ensure_one_sell_failure:
  "(q \<le> 0 \<longrightarrow> ensure_one_sell cl cfg e s q avg w = ((None, None, None), w))
   \<and> (0 < q \<and> fst (placeorder cl (place_request cfg e s q avg) (store w)) = Inl err
        \<longrightarrow> fst (ensure_one_sell cl cfg e s q avg w) = (None, None, None))
   \<and> ((\<forall>req b. fst (placeorder cl req b) = Inl err) \<and> find (sell_at q) orders = None
        \<longrightarrow> open_sell_id (fst (maintain_order cl cfg e s q avg orders st w)) = None
          \<and> open_sell_px (fst (maintain_order cl cfg e s q avg orders st w)) = None
          \<and> open_sell_qty (fst (maintain_order cl cfg e s q avg orders st w)) = None)"
proof -
  have a: "ensure_one_sell cl cfg e s q avg w = ((None, None, None), w)" if "q \<le> 0"
    using that by (simp add: ensure_one_sell_def)
  have b: "fst (ensure_one_sell cl cfg e s q avg w) = (None, None, None)"
    if "fst (placeorder cl (place_request cfg e s q avg) (store w)) = Inl err"
    using that by (rule ensure_one_sell_raises)
  have c: "open_sell_id (fst (maintain_order cl cfg e s q avg orders st w)) = None
          \<and> open_sell_px (fst (maintain_order cl cfg e s q avg orders st w)) = None
          \<and> open_sell_qty (fst (maintain_order cl cfg e s q avg orders st w)) = None"
    if "\<forall>req b. fst (placeorder cl req b) = Inl err" "find (sell_at q) orders = None"
    using that by (intro maintain_order_raises) auto
  from a b c show ?thesis by blast
qed

theorem ensure_one_sell_failure_witness:
  "ensure_one_sell failing_client default_config ''NFO'' ''NIFTY24500CE'' 0 100 idle_world
     = ((None, None, None), idle_world)
   \<and> fst (placeorder failing_client
        (place_request default_config ''NFO'' ''NIFTY24500CE'' 10 100) (store idle_world))
       = Inl ClientError
   \<and> fst (ensure_one_sell failing_client default_config ''NFO'' ''NIFTY24500CE'' 10 100 idle_world)
       = (None, None, None)
   \<and> open_sell_id (fst (maintain_order failing_client default_config ''NFO'' ''NIFTY24500CE''
        10 100 [] (fst tracked_state) idle_world)) = None"
proof -
  have r: "\<forall>req b. fst (placeorder failing_client req b) = Inl ClientError"
    by (simp add: failing_client_def)
  have n: "find (sell_at 10) [] = None" by simp
  have z: "(0::rat) \<le> 0" "(0::rat) < 10" by simp_all
  show ?thesis
    using ensure_one_sell_failure[of 0 failing_client default_config "''NFO''" "''NIFTY24500CE''"
        100 idle_world ClientError "[]" "fst tracked_state"]
      ensure_one_sell_failure[of 10 failing_client default_config "''NFO''" "''NIFTY24500CE''"
        100 idle_world ClientError "[]" "fst tracked_state"]
      r n z
    by simp
qed

subsection \<open>A live order at the current quantity\<close>















subsection \<open>Going flat\<close>








subsection \<open>One protective order per instrument\<close>

lemma increase_cycle1_value:
  "increase_cycle1 =
     (((SymbolState ''NIFTY24500CE'' ''NFO'')
         \<lparr> total_qty := 10, avg_price := 100, open_sell_id := Some ''ORD'',
           open_sell_px := Some (401 / 4), open_sell_qty := Some 10, tracking := True,
           session_id := 1, session_start := Some 1 \<rparr>, 10),
      \<lparr> store = [mk_order ''ORD'' ''SELL'' 10 (401 / 4)],
        calls = [PlaceOrder (place_request default_config ''NFO'' ''NIFTY24500CE'' 10 100)] \<rparr>)"
  by code_simp

lemma increase_cycle2_value:
  "book_cycle default_config ''NFO'' ''NIFTY24500CE'' (20, 100)
       [mk_exec 0 BUY 10 100, mk_exec 3 BUY 10 100] 4
     (((SymbolState ''NIFTY24500CE'' ''NFO'')
         \<lparr> total_qty := 10, avg_price := 100, open_sell_id := Some ''ORD'',
           open_sell_px := Some (401 / 4), open_sell_qty := Some 10, tracking := True,
           session_id := 1, session_start := Some 1 \<rparr>, 10),
      \<lparr> store = [mk_order ''ORD'' ''SELL'' 10 (401 / 4)],
        calls = [PlaceOrder (place_request default_config ''NFO'' ''NIFTY24500CE'' 10 100)] \<rparr>)
   = (((SymbolState ''NIFTY24500CE'' ''NFO'')
         \<lparr> total_qty := 20, avg_price := 100, open_sell_id := Some ''ORDI'',
           open_sell_px := Some (401 / 4), open_sell_qty := Some 20, tracking := True,
           session_id := 1, session_start := Some 1, session_buy_qty := 10,
           session_populated := True \<rparr>, 20),
      \<lparr> store = [mk_order ''ORD'' ''SELL'' 10 (401 / 4), mk_order ''ORDI'' ''SELL'' 20 (401 / 4)],
        calls = [PlaceOrder (place_request default_config ''NFO'' ''NIFTY24500CE'' 10 100),
                 PlaceOrder (place_request default_config ''NFO'' ''NIFTY24500CE'' 20 100)] \<rparr>)"
  by code_simp

text \<open>
  Claim C1 does not hold of the code. When the quantity grows, the cycle re-arms; a SELL
  at the old quantity is not a SELL at the new quantity, so no open order is found, and
  the armed branch places the new SELL without cancelling the old one (the branch that
  is not armed cancels first). Against an order book that records exactly the engine's
  placements and cancellations: the first cycle, on 10, leaves one live SELL of 10; the
  second, on 20, leaves two live SELLs, of 10 and of 20, with \<open>manual_override\<close> false.
\<close>

theorem two_live_sells_after_increase:
  "map o_quantity (live_sells (store (snd increase_cycle1)) ''NFO'' ''NIFTY24500CE'') = [10]
   \<and> map o_quantity (live_sells (store (snd increase_cycle2)) ''NFO'' ''NIFTY24500CE'') = [10, 20]
   \<and> \<not> manual_override (fst (fst increase_cycle2))
   \<and> calls (snd increase_cycle2) =
       [PlaceOrder (place_request default_config ''NFO'' ''NIFTY24500CE'' 10 100),
        PlaceOrder (place_request default_config ''NFO'' ''NIFTY24500CE'' 20 100)]"
proof -
  have c2: "increase_cycle2 =
     (((SymbolState ''NIFTY24500CE'' ''NFO'')
         \<lparr> total_qty := 20, avg_price := 100, open_sell_id := Some ''ORDI'',
           open_sell_px := Some (401 / 4), open_sell_qty := Some 20, tracking := True,
           session_id := 1, session_start := Some 1, session_buy_qty := 10,
           session_populated := True \<rparr>, 20),
      \<lparr> store = [mk_order ''ORD'' ''SELL'' 10 (401 / 4), mk_order ''ORDI'' ''SELL'' 20 (401 / 4)],
        calls = [PlaceOrder (place_request default_config ''NFO'' ''NIFTY24500CE'' 10 100),
                 PlaceOrder (place_request default_config ''NFO'' ''NIFTY24500CE'' 20 100)] \<rparr>)"
    unfolding increase_cycle2_def increase_cycle1_value by (rule increase_cycle2_value)
  show ?thesis
    unfolding c2 increase_cycle1_value
    by (simp add: live_sells_def mk_order_def SymbolState_def)
qed

end
